theory Spec2Isabelle
  imports Main "HOL-Library.Multiset" "HOL-Library.Sublist"
begin

section \<open>JavaScript values used by the report generator\<close>

text \<open>
  Strings are byte strings. A template literal \<^verbatim>\<open>${n}\<close> of a non-negative integer is its
  decimal rendering, \<open>show_nat\<close>.
\<close>

fun show_nat :: "nat \<Rightarrow> string" where
  "show_nat n =
     (if n < 10 then [''0123456789'' ! n]
      else show_nat (n div 10) @ [''0123456789'' ! (n mod 10)])"

declare show_nat.simps [simp del]

text \<open>\<^verbatim>\<open>Array.prototype.join\<close> on strings.\<close>

fun join :: "string \<Rightarrow> string list \<Rightarrow> string" where
  "join sep [] = []"
| "join sep [x] = x"
| "join sep (x # y # ys) = x @ sep @ join sep (y # ys)"

text \<open>
  \<^verbatim>\<open>[...new Set(xs)]\<close>: a JavaScript Set iterates in insertion order, so the spread keeps
  the first occurrence of every element, in the order of first occurrence.
\<close>

definition spreadSet :: "'a list \<Rightarrow> 'a list" where
  "spreadSet xs = fold (\<lambda>x acc. if x \<in> set acc then acc else acc @ [x]) xs []"

section \<open>PatientResult\<close>

text \<open>
  The result objects built in \<^verbatim>\<open>processPatientClaim\<close>, \<^verbatim>\<open>processRow\<close> and the main loop.
  \<open>rowNumber\<close> is a number; \<open>0\<close> stands for every falsy row number (a missing one included).
  \<open>alt_rowNumber\<close> is the field \<^verbatim>\<open>_rowNumber\<close> read as a fallback by the writer.
  The empty string stands for a missing (falsy) \<open>status\<close>; \<open>resultNotes\<close> is the field
  \<^verbatim>\<open>notes\<close>. Timestamps and processing
  times are clock readings and are left out.
\<close>

record patientResult =
  rowNumber :: nat
  alt_rowNumber :: nat
  patientIndex :: nat
  totalPatients :: nat
  status :: string
  billingStatus :: string
  errorMessage :: string
  resultNotes :: string

section \<open>Status Aggregator (reportGenerator.js, aggregateStatus)\<close>

text \<open>\<^verbatim>\<open>results.map(r => r.status || 'Unknown')\<close>\<close>

definition statusesOf :: "patientResult list \<Rightarrow> string list" where
  "statusesOf results = map (\<lambda>r. if status r = [] then ''Unknown'' else status r) results"

definition aggregateStatus :: "patientResult list \<Rightarrow> string" where
  "aggregateStatus results =
     (if results = [] then ''Unknown''
      else
        let statuses = statusesOf results;
            uniqueStatuses = spreadSet statuses
        in
          if ''Billed'' \<in> set uniqueStatuses then
            (if length uniqueStatuses = 1 then ''Billed''
             else ''Billed ('' @ show_nat (length results) @ '' patients)'')
          else if ''Appt. Cancelled'' \<in> set uniqueStatuses then
            (if length uniqueStatuses = 1 then ''Appt. Cancelled''
             else ''Appt. Cancelled ('' @ show_nat (length results) @ '' patients)'')
          else if ''Success'' \<in> set uniqueStatuses then
            (if length uniqueStatuses = 1 then ''Success''
             else ''Success ('' @ show_nat (length results) @ '' patients)'')
          else if ''Failed'' \<in> set uniqueStatuses then
            (let failedCount = length (filter (\<lambda>s. s = ''Failed'') statuses)
             in if failedCount = length results then ''Failed''
                else ''Failed ('' @ show_nat failedCount @ ''/'' @ show_nat (length results)
                       @ '' patients)'')
          else if length uniqueStatuses > 1 then join '', '' uniqueStatuses
          else uniqueStatuses ! 0)"

text \<open>A result that carries nothing but a status, for the examples.\<close>

definition withStatus :: "string \<Rightarrow> patientResult" where
  "withStatus s =
     \<lparr>rowNumber = 2, alt_rowNumber = 0, patientIndex = 1, totalPatients = 2, status = s,
      billingStatus = [], errorMessage = [], resultNotes = []\<rparr>"

section \<open>Cells and sheets\<close>

text \<open>
  \<^verbatim>\<open>XLSX.utils.sheet_to_json(sheet, { header: 1, defval: '' })\<close> returns the sheet as an array
  of rows, each an array of raw cell values: strings, numbers and booleans, with \<open>''\<close> for
  an empty cell. Numbers are modelled as integers. \<open>truthy\<close> is JavaScript's conversion of
  such a value to a boolean.
\<close>

datatype cell = CStr string | CNum int | CBool bool

fun truthy :: "cell \<Rightarrow> bool" where
  "truthy (CStr s) = (s \<noteq> [])"
| "truthy (CNum n) = (n \<noteq> 0)"
| "truthy (CBool b) = b"

definition lowerChar :: "char \<Rightarrow> char" where
  "lowerChar c =
     (case map_of (zip ''ABCDEFGHIJKLMNOPQRSTUVWXYZ'' ''abcdefghijklmnopqrstuvwxyz'') c of
        Some d \<Rightarrow> d
      | None \<Rightarrow> c)"

definition toLowerCase :: "string \<Rightarrow> string" where
  "toLowerCase s = map lowerChar s"

definition show_int :: "int \<Rightarrow> string" where
  "show_int n = (if n < 0 then ''-'' @ show_nat (nat (- n)) else show_nat (nat n))"

fun toString :: "cell \<Rightarrow> string" where
  "toString (CStr s) = s"
| "toString (CNum n) = show_int n"
| "toString (CBool b) = (if b then ''true'' else ''false'')"

text \<open>\<^verbatim>\<open>h => h && h.toString().toLowerCase() === 'status'\<close>\<close>

definition isStatusHeader :: "cell \<Rightarrow> bool" where
  "isStatusHeader h = (truthy h \<and> toLowerCase (toString h) = ''status'')"

text \<open>
  A column description of \<^verbatim>\<open>sheet['!cols']\<close>: a width in characters, a width in pixels and
  the hidden flag, each possibly absent. The writer's default is \<^verbatim>\<open>{ wch: 15 }\<close>.
\<close>

record colInfo =
  wch :: "nat option"
  wpx :: "nat option"
  hidden :: bool

definition defaultCol :: colInfo where
  "defaultCol = \<lparr>wch = Some 15, wpx = None, hidden = False\<rparr>"

text \<open>The part of a worksheet the writer reads and writes: the rows and \<^verbatim>\<open>'!cols'\<close>.\<close>

record sheet =
  rows :: "cell list list"
  cols :: "colInfo list option"

datatype error = Error string

section \<open>Status Writer (reportGenerator.js, updateOriginalExcel)\<close>

text \<open>\<^verbatim>\<open>Array.prototype.findIndex\<close>, with \<open>None\<close> for \<open>-1\<close>.\<close>

fun findIndex :: "('a \<Rightarrow> bool) \<Rightarrow> 'a list \<Rightarrow> nat option" where
  "findIndex P [] = None"
| "findIndex P (x # xs) = (if P x then Some 0 else map_option Suc (findIndex P xs))"

text \<open>\<^verbatim>\<open>row.splice(i, 1)\<close>: removes the element at \<open>i\<close>, nothing when \<open>i\<close> is out of range.\<close>

definition splice1 :: "nat \<Rightarrow> 'a list \<Rightarrow> 'a list" where
  "splice1 i xs = take i xs @ drop (Suc i) xs"

text \<open>\<^verbatim>\<open>while (row.length < n) row.push('')\<close>\<close>

definition padTo :: "nat \<Rightarrow> cell list \<Rightarrow> cell list" where
  "padTo n row = row @ replicate (n - length row) (CStr [])"

text \<open>
  Lines 154 to 179, on a sheet with the header row \<open>headers\<close> and the data rows
  \<open>dataRows\<close>: find the first Status header; when it is not the last header remove that
  column from every row; when no Status column is left append the header and pad the data
  rows. Returns the header, the data rows and \<open>statusColumnIndex\<close>. The comparison
  \<^verbatim>\<open>statusColumnIndex < headers.length - 1\<close> is only made for an index that was found, where
  the header is not empty.
\<close>

definition placeStatusColumn ::
  "cell list \<Rightarrow> cell list list \<Rightarrow> cell list \<times> cell list list \<times> nat" where
  "placeStatusColumn headers dataRows =
     (let found = findIndex isStatusHeader headers;
          (headers1, dataRows1, found1) =
             (case found of
                Some i \<Rightarrow>
                  if i < length headers - 1
                  then (splice1 i headers, map (splice1 i) dataRows, None)
                  else (headers, dataRows, found)
              | None \<Rightarrow> (headers, dataRows, found))
      in case found1 of
           None \<Rightarrow>
             (let headers2 = headers1 @ [CStr ''Status'']
              in (headers2, map (padTo (length headers2)) dataRows1, length headers1))
         | Some i \<Rightarrow> (headers1, dataRows1, i))"

text \<open>\<^verbatim>\<open>result.rowNumber || result._rowNumber\<close>\<close>

definition rowNumOf :: "patientResult \<Rightarrow> nat" where
  "rowNumOf result = (if rowNumber result \<noteq> 0 then rowNumber result else alt_rowNumber result)"

text \<open>
  Lines 181 to 191: the Map from row number to the results of the row, in order.
  \<open>addResult\<close> is the body of the \<^verbatim>\<open>forEach\<close>.
\<close>

definition addResult ::
  "patientResult \<Rightarrow> (nat \<rightharpoonup> patientResult list) \<Rightarrow> (nat \<rightharpoonup> patientResult list)" where
  "addResult result m =
     (let rowNum = rowNumOf result
      in if rowNum \<noteq> 0
         then m(rowNum \<mapsto> (case m rowNum of None \<Rightarrow> [] | Some rs \<Rightarrow> rs) @ [result])
         else m)"

definition resultsMap :: "patientResult list \<Rightarrow> (nat \<rightharpoonup> patientResult list)" where
  "resultsMap results = fold addResult results Map.empty"

text \<open>
  The body of the loop of lines 234 to 256 for the row at position \<open>i\<close> of \<open>rows\<close>
  (the header is at position 0).
\<close>

definition writeRow ::
  "(nat \<rightharpoonup> patientResult list) \<Rightarrow> nat \<Rightarrow> nat \<Rightarrow> cell list \<Rightarrow> cell list" where
  "writeRow rmap statusColumnIndex i row0 =
     (let excelRowNumber = i + 1;
          row = padTo (Suc statusColumnIndex) row0;
          rowResults = rmap excelRowNumber
      in if rowResults \<noteq> None \<and> the rowResults \<noteq> []
         then row[statusColumnIndex := CStr (aggregateStatus (the rowResults))]
         else if \<not> truthy (row ! statusColumnIndex) \<or> row ! statusColumnIndex = CStr []
              then row[statusColumnIndex := CStr ''Not Processed'']
              else row)"

fun writeRows ::
  "(nat \<rightharpoonup> patientResult list) \<Rightarrow> nat \<Rightarrow> nat \<Rightarrow> cell list list \<Rightarrow> cell list list" where
  "writeRows rmap statusColumnIndex i [] = []"
| "writeRows rmap statusColumnIndex i (row # rest) =
     writeRow rmap statusColumnIndex i row # writeRows rmap statusColumnIndex (Suc i) rest"

text \<open>Lines 261 to 275: the column descriptions of the written sheet.\<close>

definition statusCols :: "colInfo list option \<Rightarrow> cell list \<Rightarrow> nat \<Rightarrow> colInfo list" where
  "statusCols oldCols headers statusColumnIndex =
     (case oldCols of
        Some cs \<Rightarrow>
          if statusColumnIndex \<ge> length cs then cs @ [defaultCol]
          else cs[statusColumnIndex := defaultCol]
      | None \<Rightarrow> (map (\<lambda>_. defaultCol) headers)[statusColumnIndex := defaultCol])"

text \<open>
  The writer from the rows of the chosen sheet on. Reading and writing the workbook file
  and choosing the sheet are outside the model; an empty sheet raises.
\<close>

definition updateOriginalExcel :: "sheet \<Rightarrow> patientResult list \<Rightarrow> error + sheet" where
  "updateOriginalExcel sh results =
     (case rows sh of
        [] \<Rightarrow> Inl (Error ''No data found in sheet'')
      | headers # dataRows \<Rightarrow>
          (let (headers', dataRows', statusColumnIndex) = placeStatusColumn headers dataRows
           in Inr \<lparr>rows = headers' # writeRows (resultsMap results) statusColumnIndex 1 dataRows',
                   cols = Some (statusCols (cols sh) headers' statusColumnIndex)\<rparr>))"

text \<open>
  The last column of the data rows, the header aside: the cell of every data row under
  the last header.
\<close>

definition lastColumn :: "sheet \<Rightarrow> cell list" where
  "lastColumn sh = map (\<lambda>row. row ! (length (hd (rows sh)) - 1)) (tl (rows sh))"

definition rectangular :: "sheet \<Rightarrow> bool" where
  "rectangular sh = (\<forall>row \<in> set (rows sh). length row = length (hd (rows sh)))"

text \<open>
  The value the loop leaves in the Status cell of the row with Excel row number \<open>n\<close>, from
  the cell's content \<open>old\<close> before: the two branches of lines 245 to 255.
\<close>

definition statusValue :: "(nat \<rightharpoonup> patientResult list) \<Rightarrow> nat \<Rightarrow> cell \<Rightarrow> cell" where
  "statusValue rmap n old =
     (if rmap n \<noteq> None \<and> the (rmap n) \<noteq> [] then CStr (aggregateStatus (the (rmap n)))
      else if \<not> truthy old \<or> old = CStr [] then CStr ''Not Processed''
      else old)"

section \<open>The browser session (index.js)\<close>

text \<open>
  The automation drives a Playwright page. The page is a value of an arbitrary type \<open>'p\<close>;
  a driver action takes the page and returns the page after it together with its value or
  the message of the error it throws. \<^verbatim>\<open>String.prototype.trim\<close> and
  \<^verbatim>\<open>toUpperCase\<close> are modelled on ASCII.
\<close>

type_synonym ('a, 'p) action = "'p \<Rightarrow> (string + 'a) \<times> 'p"

definition isSpace :: "char \<Rightarrow> bool" where
  "isSpace c = (c \<in> set [CHR '' '', CHR 0x09, CHR 0x0A, CHR 0x0B, CHR 0x0C, CHR 0x0D])"

definition trim :: "string \<Rightarrow> string" where
  "trim s = rev (dropWhile isSpace (rev (dropWhile isSpace s)))"

definition upperChar :: "char \<Rightarrow> char" where
  "upperChar c =
     (case map_of (zip ''abcdefghijklmnopqrstuvwxyz'' ''ABCDEFGHIJKLMNOPQRSTUVWXYZ'') c of
        Some d \<Rightarrow> d
      | None \<Rightarrow> c)"

definition toUpperCase :: "string \<Rightarrow> string" where
  "toUpperCase s = map upperChar s"

text \<open>\<^verbatim>\<open>a || b || ... || ''\<close> on strings: the first non-empty one.\<close>

fun firstTruthy :: "string list \<Rightarrow> string" where
  "firstTruthy [] = []"
| "firstTruthy (x # xs) = (if x \<noteq> [] then x else firstTruthy xs)"

text \<open>
  The driver calls of the program, each standing for the Playwright calls of one block of
  the source that succeed or fail together.
\<close>

datatype act =
    GotoAccounts
  | ClickOperations
  | ClickClaimsButton
  | ApplyEntitySource
  | ApplyAssessmentResource
  | Pause
  | WaitClaimsHeading
  | CustomIdStrategy nat
  | FillCustomIdFilter string
  | FillMrnFilter string
  | ApplyAppointmentDate string
  | CountPatients
  | CountClaimRows
  | OpenRecord nat
  | OpenEditForm
  | EnterDos string
  | EnterIcd string
  | FindBillingStatusField
  | ClickBillingStatusField
  | SelectBillingOption string
  | SelectFirstOption
  | ClickSave
  | CloseFormIfOpen
  | WaitTable
  | CloseModal

text \<open>
  What a run leaves behind: every driver call with the message of its failure if it failed,
  and the console lines that report a caught failure or a strategy (without their leading
  pictograph).
\<close>

datatype event = Call act "string option" | Console string

text \<open>
  The session: the page, the four module-level flags of lines 22 to 25, and the events so
  far.
\<close>

record 'p session =
  page :: 'p
  claimsClickedOnce :: bool
  accountsPageNavigated :: bool
  entitySourceFilterApplied :: bool
  assessmentResourceFilterApplied :: bool
  events :: "event list"

definition console :: "string \<Rightarrow> 'p session \<Rightarrow> 'p session" where
  "console line s = s\<lparr>events := events s @ [Console line]\<rparr>"

definition perform :: "act \<Rightarrow> ('a, 'p) action \<Rightarrow> 'p session \<Rightarrow> (string + 'a) \<times> 'p session" where
  "perform a f s =
     (case f (page s) of
        (Inl msg, p) \<Rightarrow> (Inl msg, s\<lparr>page := p, events := events s @ [Call a (Some msg)]\<rparr>)
      | (Inr v, p) \<Rightarrow> (Inr v, s\<lparr>page := p, events := events s @ [Call a None]\<rparr>))"

text \<open>
  The driver: what each block of Playwright calls does to the page. \<open>formatDate\<close> is the
  function of that name of excelReader.js.
\<close>

record 'p driver =
  isClosed :: "'p \<Rightarrow> bool"
  gotoAccounts :: "(unit, 'p) action"
  clickOperations :: "(unit, 'p) action"
  clickClaimsButton :: "(unit, 'p) action"
  applyEntitySource :: "(unit, 'p) action"
  applyAssessmentResource :: "(unit, 'p) action"
  pause :: "(unit, 'p) action"
  waitClaimsHeading :: "(unit, 'p) action"
  strategies :: "(unit, 'p) action list"
  fillCustomIdFilter :: "string \<Rightarrow> (unit, 'p) action"
  fillMrnFilter :: "string \<Rightarrow> (unit, 'p) action"
  applyAppointmentDate :: "string \<Rightarrow> string \<Rightarrow> (unit, 'p) action"
  countPatients :: "(nat, 'p) action"
  countClaimRows :: "(nat, 'p) action"
  openRecord :: "nat \<Rightarrow> (unit, 'p) action"
  openEditForm :: "(bool, 'p) action"
  enterDos :: "string \<Rightarrow> (unit, 'p) action"
  enterIcd :: "string \<Rightarrow> (unit, 'p) action"
  findBillingStatusField :: "(bool, 'p) action"
  clickBillingStatusField :: "(unit, 'p) action"
  selectBillingOption :: "string \<Rightarrow> (unit, 'p) action"
  selectFirstOption :: "(bool, 'p) action"
  clickSave :: "(unit, 'p) action"
  closeFormIfOpen :: "(unit, 'p) action"
  waitTable :: "(unit, 'p) action"
  closeModal :: "(unit, 'p) action"
  formatDate :: "string \<Rightarrow> string"

text \<open>
  A row of the input as \<^verbatim>\<open>loadExcelData\<close> delivers it; the empty string stands for an absent
  field. \<open>u_rowNumber\<close> is \<^verbatim>\<open>_rowNumber\<close>; the fields \<open>in_\<close>... are the columns the patient
  processor reads the billing classification from, \<open>orig_appt_\<close>... and \<open>icd_\<close>... the
  alternative column names of the appointment date and the diagnosis code.
\<close>

record inputRow =
  u_rowNumber :: nat
  mrn :: string
  customId :: string
  dos :: string
  dosFormatted :: string
  appointmentDate :: string
  appointmentDateFormatted :: string
  orig_appt_dot_date :: string
  orig_appt_date :: string
  original_appointment_date :: string
  icd :: string
  icd_code :: string
  icd_codes :: string
  in_billingStatus :: string
  in_billing_status :: string
  in_billingstatus :: string
  in_qhs_billing_status :: string
  in_qhsbillingstatus :: string

section \<open>Element Resolver (clickCustomIdFilter)\<close>

text \<open>
  The loop of lines 272 to 287 from index \<open>i\<close> on. One attempt is the strategy, the wait for
  the filter to be visible and the click, which fail together.
\<close>

function tryStrategies :: "'p driver \<Rightarrow> nat \<Rightarrow> 'p session \<Rightarrow> (string + unit) \<times> 'p session" where
  "tryStrategies d i s =
     (if i < length (strategies d) then
        (case perform (CustomIdStrategy i) (strategies d ! i)
                (console (''Trying strategy '' @ show_nat (i + 1) @ ''...'') s) of
           (Inr u, s1) \<Rightarrow>
             (Inr (),
              console (''Custom ID filter clicked using strategy '' @ show_nat (i + 1)) s1)
         | (Inl msg, s1) \<Rightarrow>
             (let s2 = console (''Strategy '' @ show_nat (i + 1) @ '' failed: '' @ msg) s1
              in if i = length (strategies d) - 1
                 then (Inl (''All strategies failed to find Custom ID filter. Last error: ''
                            @ msg), s2)
                 else tryStrategies d (i + 1) s2))
      else (Inr (), s))"
  by pat_completeness auto
termination
  by (relation "measure (\<lambda>(d, i, s). length (strategies d) - i)") auto

text \<open>Lines 109 to 287: a missing Claims heading is reported and ignored.\<close>

definition clickCustomIdFilter :: "'p driver \<Rightarrow> 'p session \<Rightarrow> (string + unit) \<times> 'p session" where
  "clickCustomIdFilter d s =
     (case perform WaitClaimsHeading (waitClaimsHeading d) s of
        (Inr u, s1) \<Rightarrow> tryStrategies d 0 s1
      | (Inl msg, s1) \<Rightarrow>
          tryStrategies d 0 (console ''Claims heading not found, continuing anyway...'' s1))"

text \<open>
  The events of \<open>n\<close> failed attempts in a row, the first with index \<open>i\<close>, with their
  messages.
\<close>

fun failedAttempts :: "nat \<Rightarrow> string list \<Rightarrow> event list" where
  "failedAttempts i [] = []"
| "failedAttempts i (msg # msgs) =
     [Console (''Trying strategy '' @ show_nat (i + 1) @ ''...''),
      Call (CustomIdStrategy i) (Some msg),
      Console (''Strategy '' @ show_nat (i + 1) @ '' failed: '' @ msg)]
     @ failedAttempts (Suc i) msgs"

declare tryStrategies.simps [simp del]

section \<open>Patient Processor (processPatientClaim)\<close>

text \<open>Lines 459 to 468.\<close>

definition excelBillingStatus :: "inputRow \<Rightarrow> string" where
  "excelBillingStatus row =
     trim (firstTruthy [in_billingStatus row, in_billing_status row, in_billingstatus row,
                        in_qhs_billing_status row, in_qhsbillingstatus row])"

definition isCancelledAppointment :: "inputRow \<Rightarrow> bool" where
  "isCancelledAppointment row = (toUpperCase (excelBillingStatus row) \<noteq> ''QHSLAB'')"

text \<open>Lines 475 and 540.\<close>

definition dosValue :: "inputRow \<Rightarrow> string" where
  "dosValue row = firstTruthy [dosFormatted row, dos row]"

definition icdValue :: "inputRow \<Rightarrow> string" where
  "icdValue row = firstTruthy [icd row, icd_code row, icd_codes row]"

text \<open>Lines 1033 to 1049.\<close>

definition targetBillingStatus :: "inputRow \<Rightarrow> string" where
  "targetBillingStatus row =
     (if toUpperCase (excelBillingStatus row) = ''QHSLAB'' then ''Billed''
      else if excelBillingStatus row \<noteq> [] then ''Appt. Cancelled''
      else ''Appt. Cancelled'')"

text \<open>
  Lines 397 to 456: find the entry at the index \<open>patientIndex0\<close> (the parameter
  \<^verbatim>\<open>patientIndex\<close>), open it, open its edit form. A form button that is not found is
  reported and ignored.
\<close>

definition openPatientRecord ::
  "'p driver \<Rightarrow> nat \<Rightarrow> 'p session \<Rightarrow> (string + unit) \<times> 'p session" where
  "openPatientRecord d patientIndex0 s =
     (case perform CountClaimRows (countClaimRows d) s of
        (Inl msg, s1) \<Rightarrow> (Inl msg, s1)
      | (Inr rowCount, s1) \<Rightarrow>
          if rowCount = 0 then (Inl ''No patient rows with IntellyChart found in table'', s1)
          else if patientIndex0 \<ge> rowCount
          then (Inl (''Patient index '' @ show_nat patientIndex0 @ '' exceeds available rows (''
                     @ show_nat rowCount @ '')''), s1)
          else
            (case perform (OpenRecord patientIndex0) (openRecord d patientIndex0) s1 of
               (Inl msg, s2) \<Rightarrow> (Inl msg, s2)
             | (Inr u, s2) \<Rightarrow>
                 (case perform OpenEditForm (openEditForm d) s2 of
                    (r, s3) \<Rightarrow>
                      if r = Inr True then (Inr (), s3)
                      else
                        (case perform Pause (pause d)
                                (console ''Form button not found, but continuing...'' s3) of
                           (Inl msg, s4) \<Rightarrow> (Inl msg, s4)
                         | (Inr u, s4) \<Rightarrow> (Inr (), s4)))))"

text \<open>
  Lines 474 to 1012, the branch of an appointment that is not cancelled: enter the date of
  service if the row has one, then the diagnosis code if the row has one. A failure of
  either is reported and ignored.
\<close>

definition fillServiceFields :: "'p driver \<Rightarrow> inputRow \<Rightarrow> 'p session \<Rightarrow> 'p session" where
  "fillServiceFields d row s =
     (let s1 =
            (if dosValue row \<noteq> [] then
               (case perform (EnterDos (dosValue row)) (enterDos d (dosValue row)) s of
                  (Inr u, s') \<Rightarrow> s'
                | (Inl msg, s') \<Rightarrow>
                    console (''Date of Service entry failed: '' @ msg @ ''. Continuing...'') s')
             else s)
      in if icdValue row \<noteq> [] then
           (case perform (EnterIcd (icdValue row)) (enterIcd d (icdValue row)) s1 of
              (Inr u, s') \<Rightarrow> s'
            | (Inl msg, s') \<Rightarrow> console (''ICD entry failed: '' @ msg @ ''. Continuing...'') s')
         else s1)"

text \<open>
  Lines 1015 to 1114: find the Billing Status field, click it, select the option named
  \<open>target\<close>; when that fails select the first option. Returns \<open>billingStatusSet\<close>.
\<close>

definition setBillingClassification ::
  "'p driver \<Rightarrow> string \<Rightarrow> 'p session \<Rightarrow> (string + bool) \<times> 'p session" where
  "setBillingClassification d target s =
     (if isClosed d (page s) then (Inl ''Page closed before setting billing status'', s)
      else
        (case perform FindBillingStatusField (findBillingStatusField d) s of
           (r, s1) \<Rightarrow>
             if r \<noteq> Inr True then (Inl ''Could not find Billing Status field'', s1)
             else if isClosed d (page s1)
             then (Inl ''Page closed before clicking Billing Status field'', s1)
             else
               (case perform ClickBillingStatusField (clickBillingStatusField d) s1 of
                  (Inl msg, s2) \<Rightarrow> (Inl msg, s2)
                | (Inr u, s2) \<Rightarrow>
                    if isClosed d (page s2)
                    then (Inl ''Page closed after clicking Billing Status field'', s2)
                    else
                      (case perform (SelectBillingOption target) (selectBillingOption d target)
                              s2 of
                         (Inr u, s3) \<Rightarrow> (Inr True, s3)
                       | (Inl msg, s3) \<Rightarrow>
                           (case perform SelectFirstOption (selectFirstOption d)
                                   (console (''Billing Status '' @ [CHR 0x22] @ target
                                             @ [CHR 0x22]
                                             @ '' not found in menu. Available options may have changed.'')
                                      s3) of
                              (Inr clicked, s5) \<Rightarrow> (Inr clicked, s5)
                            | (Inl msg2, s5) \<Rightarrow>
                                (Inr False,
                                 console (''Could not set billing status: '' @ msg2) s5))))))"

text \<open>Lines 1119 to 1169: save and wait for the listing.\<close>

definition saveAndConfirm :: "'p driver \<Rightarrow> 'p session \<Rightarrow> (string + unit) \<times> 'p session" where
  "saveAndConfirm d s =
     (if isClosed d (page s) then (Inl ''Page closed before clicking Save button'', s)
      else
        (case perform ClickSave (clickSave d) s of
           (Inl msg, s1) \<Rightarrow>
             if isClosed d (page s1) then (Inl ''Page closed during save'', s1)
             else (Inl msg, s1)
         | (Inr u, s1) \<Rightarrow>
             (case perform CloseFormIfOpen (closeFormIfOpen d) s1 of
                (r, s2) \<Rightarrow>
                  (case perform Pause (pause d) s2 of
                     (Inl msg, s3) \<Rightarrow> (Inl msg, s3)
                   | (Inr u, s3) \<Rightarrow>
                       if isClosed d (page s3) then (Inl ''Page closed after save'', s3)
                       else
                         (case perform WaitTable (waitTable d) s3 of
                            (Inr u, s4) \<Rightarrow> (Inr (), s4)
                          | (Inl msg, s4) \<Rightarrow>
                              (Inr (), console (''Table not found: '' @ msg) s4))))))"

text \<open>Lines 1175 to 1190.\<close>

definition succeeded :: "bool \<Rightarrow> nat \<Rightarrow> patientResult \<Rightarrow> patientResult" where
  "succeeded billingStatusSet totalPatients0 result =
     (let who = ''Patient '' @ show_nat (patientIndex result) @ ''/'' @ show_nat totalPatients0
      in if billingStatusSet then
           (if billingStatus result = ''Billed'' then
              result\<lparr>status := ''Billed'',
                     resultNotes := who @ '' processed successfully - Marked as Bill ed''\<rparr>
            else if billingStatus result = ''Appt. Cancelled'' then
              result\<lparr>status := ''Appt. Cancelled'',
                     resultNotes := who @ '' processed successfully - Marked as Appt. Cancelled''\<rparr>
            else
              result\<lparr>status := ''Success'', resultNotes := who @ '' processed successfully''\<rparr>)
         else
           result\<lparr>status := ''Success'',
                  resultNotes := who @ '' processed successfully (billing status not set)''\<rparr>)"

text \<open>The catch block of lines 1193 to 1207.\<close>

definition patientFailed ::
  "'p driver \<Rightarrow> nat \<Rightarrow> string \<Rightarrow> patientResult \<Rightarrow> 'p session \<Rightarrow> patientResult \<times> 'p session" where
  "patientFailed d totalPatients0 msg result s =
     (result\<lparr>status := ''Failed'', errorMessage := msg\<rparr>,
      snd (perform CloseModal (closeModal d)
             (console (''Patient '' @ show_nat (patientIndex result) @ ''/'' @ show_nat totalPatients0
                       @ '' failed: '' @ msg) s)))"

definition processPatientClaim ::
  "'p driver \<Rightarrow> inputRow \<Rightarrow> nat \<Rightarrow> nat \<Rightarrow> 'p session \<Rightarrow> patientResult \<times> 'p session" where
  "processPatientClaim d excelRow patientIndex0 totalPatients0 s =
     (let result =
            \<lparr>rowNumber = u_rowNumber excelRow, alt_rowNumber = 0,
             patientIndex = patientIndex0 + 1, totalPatients = totalPatients0, status = ''Unknown'',
             billingStatus = [], errorMessage = [], resultNotes = []\<rparr>
      in case openPatientRecord d patientIndex0 s of
           (Inl msg, s1) \<Rightarrow> patientFailed d totalPatients0 msg result s1
         | (Inr u, s1) \<Rightarrow>
             (let s2 = (if isCancelledAppointment excelRow then s1
                        else fillServiceFields d excelRow s1)
              in case setBillingClassification d (targetBillingStatus excelRow) s2 of
                   (Inl msg, s3) \<Rightarrow> patientFailed d totalPatients0 msg result s3
                 | (Inr billingStatusSet, s3) \<Rightarrow>
                     (let result1 = result\<lparr>billingStatus := targetBillingStatus excelRow\<rparr>
                      in case saveAndConfirm d s3 of
                           (Inl msg, s4) \<Rightarrow> patientFailed d totalPatients0 msg result1 s4
                         | (Inr u, s4) \<Rightarrow> (succeeded billingStatusSet totalPatients0 result1, s4))))"



section \<open>Session gates and Row Processor (processRow)\<close>

text \<open>Lines 1252 to 1268.\<close>

definition navigateOnce :: "'p driver \<Rightarrow> 'p session \<Rightarrow> (string + unit) \<times> 'p session" where
  "navigateOnce d s =
     (if \<not> accountsPageNavigated s then
        (case perform GotoAccounts (gotoAccounts d) s of
           (Inr u, s1) \<Rightarrow> (Inr (), s1\<lparr>accountsPageNavigated := True\<rparr>)
         | (Inl msg, s1) \<Rightarrow> (Inl (''Failed to navigate to Accounts page: '' @ msg), s1))
      else (Inr (), s))"

text \<open>Lines 87 to 104.\<close>

definition clickClaimsOnce :: "'p driver \<Rightarrow> 'p session \<Rightarrow> (string + unit) \<times> 'p session" where
  "clickClaimsOnce d s =
     (if claimsClickedOnce s then (Inr (), s)
      else
        (case perform ClickClaimsButton (clickClaimsButton d) s of
           (Inr u, s1) \<Rightarrow> (Inr (), s1\<lparr>claimsClickedOnce := True\<rparr>)
         | (Inl msg, s1) \<Rightarrow>
             (Inl msg, console (''Failed to click Claims button: '' @ msg) s1)))"

text \<open>
  Lines 1270 to 1288: a failure inside the block is reported and ignored; the wait of the
  other branch is outside every handler of this block.
\<close>

definition openClaims :: "'p driver \<Rightarrow> 'p session \<Rightarrow> (string + unit) \<times> 'p session" where
  "openClaims d s =
     (if \<not> claimsClickedOnce s then
        (let issue = (\<lambda>msg s'.
               (Inr (),
                console (''Operations/Claims click issue: '' @ msg
                         @ ''. Continuing (already on Claims page)...'') s'))
         in case perform ClickOperations (clickOperations d) s of
              (Inl msg, s1) \<Rightarrow> issue msg s1
            | (Inr u, s1) \<Rightarrow>
                (case clickClaimsOnce d s1 of
                   (Inl msg, s2) \<Rightarrow> issue msg s2
                 | (Inr u, s2) \<Rightarrow>
                     (case perform Pause (pause d) s2 of
                        (Inl msg, s3) \<Rightarrow> issue msg s3
                      | (Inr u, s3) \<Rightarrow> (Inr (), s3))))
      else perform Pause (pause d) s)"

text \<open>Lines 1290 to 1308.\<close>

definition applyEntitySourceOnce :: "'p driver \<Rightarrow> 'p session \<Rightarrow> 'p session" where
  "applyEntitySourceOnce d s =
     (if \<not> entitySourceFilterApplied s then
        (case perform ApplyEntitySource (applyEntitySource d) s of
           (Inr u, s1) \<Rightarrow> s1\<lparr>entitySourceFilterApplied := True\<rparr>
         | (Inl msg, s1) \<Rightarrow>
             console (''Entity Source filter failed: '' @ msg @ ''. Continuing...'') s1)
      else s)"

text \<open>Lines 1310 to 1400.\<close>

definition applyAssessmentResourceOnce :: "'p driver \<Rightarrow> 'p session \<Rightarrow> 'p session" where
  "applyAssessmentResourceOnce d s =
     (if \<not> assessmentResourceFilterApplied s then
        (case perform ApplyAssessmentResource (applyAssessmentResource d) s of
           (Inr u, s1) \<Rightarrow> s1\<lparr>assessmentResourceFilterApplied := True\<rparr>
         | (Inl msg, s1) \<Rightarrow>
             console (''Assessment/Resource filter failed: '' @ msg @ ''. Continuing...'') s1)
      else s)"

text \<open>Lines 1406 to 1425: the optional Custom ID filter.\<close>

definition updateCustomIdFilter :: "'p driver \<Rightarrow> inputRow \<Rightarrow> 'p session \<Rightarrow> 'p session" where
  "updateCustomIdFilter d row s =
     (if customId row \<noteq> [] \<and> trim (customId row) \<noteq> [] then
        (let failed = (\<lambda>msg s'.
               console (''Custom ID filter failed: '' @ msg @ ''. Continuing with MRN filter...'')
                 s')
         in case clickCustomIdFilter d s of
              (Inl msg, s1) \<Rightarrow> failed msg s1
            | (Inr u, s1) \<Rightarrow>
                (case perform (FillCustomIdFilter (trim (customId row)))
                        (fillCustomIdFilter d (trim (customId row))) s1 of
                   (Inl msg, s2) \<Rightarrow> failed msg s2
                 | (Inr u, s2) \<Rightarrow> s2))
      else s)"

text \<open>Lines 1427 to 1440: the mandatory MRN filter.\<close>

definition updateMrnFilter ::
  "'p driver \<Rightarrow> inputRow \<Rightarrow> 'p session \<Rightarrow> (string + unit) \<times> 'p session" where
  "updateMrnFilter d row s =
     (case perform (FillMrnFilter (mrn row)) (fillMrnFilter d (mrn row)) s of
        (Inr u, s1) \<Rightarrow> (Inr (), s1)
      | (Inl msg, s1) \<Rightarrow> (Inl (''Failed to apply MRN filter: '' @ msg), s1))"

text \<open>Lines 1442 to 1620: the optional Appointment Date filter.\<close>

definition appointmentDateValue :: "'p driver \<Rightarrow> inputRow \<Rightarrow> string" where
  "appointmentDateValue d row =
     firstTruthy [appointmentDateFormatted row, orig_appt_dot_date row, orig_appt_date row,
                  original_appointment_date row,
                  if appointmentDate row \<noteq> [] then formatDate d (appointmentDate row) else []]"

definition updateAppointmentDateFilter ::
  "'p driver \<Rightarrow> inputRow \<Rightarrow> 'p session \<Rightarrow> 'p session" where
  "updateAppointmentDateFilter d row s =
     (if appointmentDateValue d row \<noteq> [] then
        (case perform (ApplyAppointmentDate (appointmentDateValue d row))
                (applyAppointmentDate d (appointmentDateValue d row)
                   (firstTruthy [appointmentDateFormatted row, appointmentDateValue d row])) s of
           (Inr u, s1) \<Rightarrow> s1
         | (Inl msg, s1) \<Rightarrow>
             console (''Appointment Date filter failed: '' @ msg @ ''. Continuing...'') s1)
      else s)"

text \<open>The result objects of a row without a processed patient.\<close>

definition rowResult :: "inputRow \<Rightarrow> nat \<Rightarrow> string \<Rightarrow> string \<Rightarrow> string \<Rightarrow> patientResult" where
  "rowResult row rowIndex st err nts =
     \<lparr>rowNumber = (if u_rowNumber row \<noteq> 0 then u_rowNumber row else rowIndex + 1),
      alt_rowNumber = 0, patientIndex = 0, totalPatients = 0, status = st,
      billingStatus = [], errorMessage = err, resultNotes = nts\<rparr>"

text \<open>
  Lines 1653 to 1662: the patients at the positions \<open>i\<close> to \<open>patientCount - 1\<close>, with a
  pause between two of them. Returns the results so far also when the pause fails.
\<close>

function processPatients ::
  "'p driver \<Rightarrow> inputRow \<Rightarrow> nat \<Rightarrow> nat \<Rightarrow> patientResult list \<Rightarrow> 'p session
   \<Rightarrow> (string + unit) \<times> patientResult list \<times> 'p session" where
  "processPatients d row patientCount i allResults s =
     (if i < patientCount then
        (case processPatientClaim d row i patientCount s of
           (result, s1) \<Rightarrow>
             if i < patientCount - 1 then
               (case perform Pause (pause d) s1 of
                  (Inl msg, s2) \<Rightarrow> (Inl msg, allResults @ [result], s2)
                | (Inr u, s2) \<Rightarrow>
                    processPatients d row patientCount (i + 1) (allResults @ [result]) s2)
             else processPatients d row patientCount (i + 1) (allResults @ [result]) s1)
      else (Inr (), allResults, s))"
  by pat_completeness auto
termination
  by (relation "measure (\<lambda>(d, row, patientCount, i, allResults, s). patientCount - i)") auto

text \<open>The body of the try block of processRow after the dry-run exit, lines 1247 to 1665.\<close>

definition rowBody ::
  "'p driver \<Rightarrow> inputRow \<Rightarrow> nat \<Rightarrow> 'p session
   \<Rightarrow> (string + unit) \<times> patientResult list \<times> 'p session" where
  "rowBody d row rowIndex s =
     (if isClosed d (page s)
      then (Inl ''Page was closed unexpectedly. Cannot continue processing.'', [], s)
      else
        (case navigateOnce d s of
           (Inl msg, s1) \<Rightarrow> (Inl msg, [], s1)
         | (Inr u, s1) \<Rightarrow>
             (case openClaims d s1 of
                (Inl msg, s2) \<Rightarrow> (Inl msg, [], s2)
              | (Inr u, s2) \<Rightarrow>
                  (case updateMrnFilter d row
                          (updateCustomIdFilter d row
                             (applyAssessmentResourceOnce d (applyEntitySourceOnce d s2))) of
                     (Inl msg, s3) \<Rightarrow> (Inl msg, [], s3)
                   | (Inr u, s3) \<Rightarrow>
                       (case perform CountPatients (countPatients d)
                               (updateAppointmentDateFilter d row s3) of
                          (Inl msg, s4) \<Rightarrow> (Inl msg, [], s4)
                        | (Inr patientCount, s4) \<Rightarrow>
                            if patientCount = 0
                            then (Inr (),
                                  [rowResult row rowIndex ''Skipped''
                                     ''No patients found with this MRN''
                                     ''No matching patients in table''], s4)
                            else processPatients d row patientCount 0 [] s4)))))"

text \<open>Lines 1219 to 1688. \<open>dryRun\<close> is \<^verbatim>\<open>CONFIG.DRY_RUN || !page\<close>.\<close>

definition processRow ::
  "'p driver \<Rightarrow> bool \<Rightarrow> inputRow \<Rightarrow> nat \<Rightarrow> 'p session \<Rightarrow> patientResult list \<times> 'p session" where
  "processRow d dryRun row rowIndex s =
     (if dryRun
      then ([rowResult row rowIndex ''Skipped (Dry Run)'' []
               ''Dry run mode - no automation executed''], s)
      else
        (case rowBody d row rowIndex s of
           (Inr u, allResults, s1) \<Rightarrow> (allResults, s1)
         | (Inl msg, allResults, s1) \<Rightarrow>
             (allResults
                @ [rowResult row rowIndex ''Failed'' msg (''Error processing MRN: '' @ msg)],
              console (''Failed to process MRN '' @ mrn row @ '': '' @ msg) s1)))"

text \<open>
  The main loop, lines 1735 to 1806, over the valid rows from index \<open>i\<close> on: a closed page
  ends the run with a Failed result for the row; a failing pause between two rows is
  recorded as a Failed result of the row before it.
\<close>

fun runRows ::
  "'p driver \<Rightarrow> bool \<Rightarrow> nat \<Rightarrow> inputRow list \<Rightarrow> patientResult list \<Rightarrow> 'p session
   \<Rightarrow> patientResult list \<times> 'p session" where
  "runRows d dryRun i [] results s = (results, s)"
| "runRows d dryRun i (row # rest) results s =
     (if dryRun then
        (case processRow d True row i s of
           (rowResults, s1) \<Rightarrow> runRows d dryRun (i + 1) rest (results @ rowResults) s1)
      else if isClosed d (page s) then
        (results
           @ [rowResult row i ''Failed'' ''Page closed unexpectedly''
                ''Page closed - cannot continue processing''],
         console (''Page is closed. Cannot process MRN '' @ mrn row
                  @ ''. Skipping remaining rows.'') s)
      else
        (case processRow d False row i s of
           (rowResults, s1) \<Rightarrow>
             if rest \<noteq> [] then
               (case perform Pause (pause d) s1 of
                  (Inr u, s2) \<Rightarrow> runRows d dryRun (i + 1) rest (results @ rowResults) s2
                | (Inl msg, s2) \<Rightarrow>
                    (let results1 =
                           results @ rowResults
                           @ [rowResult row i ''Failed'' msg (''Error in main loop: '' @ msg)];
                         s3 = console (''Error processing Excel row '' @ show_nat (i + 1)
                                       @ '' (MRN: '' @ mrn row @ ''): '' @ msg) s2
                     in if isClosed d (page s3) then (results1, s3)
                        else runRows d dryRun (i + 1) rest results1 s3))
             else runRows d dryRun (i + 1) rest (results @ rowResults) s1))"

declare processPatients.simps [simp del]

text \<open>The sessions that differ at most in the page and the events.\<close>

definition sameFlags :: "'p session \<Rightarrow> 'p session \<Rightarrow> bool" where
  "sameFlags s s' =
     (claimsClickedOnce s' = claimsClickedOnce s \<and>
      accountsPageNavigated s' = accountsPageNavigated s \<and>
      entitySourceFilterApplied s' = entitySourceFilterApplied s \<and>
      assessmentResourceFilterApplied s' = assessmentResourceFilterApplied s)"

text \<open>
  The events a step adds; the steps that add only console lines and calls of the acts
  \<open>A\<close>; and those of them that leave the flags alone.
\<close>

definition newEvents :: "'p session \<Rightarrow> 'p session \<Rightarrow> event list" where
  "newEvents s s' = drop (length (events s)) (events s')"

fun allowed :: "(act \<Rightarrow> bool) \<Rightarrow> event \<Rightarrow> bool" where
  "allowed A (Call a outcome) = A a"
| "allowed A (Console line) = True"

definition extends :: "(act \<Rightarrow> bool) \<Rightarrow> 'p session \<Rightarrow> 'p session \<Rightarrow> bool" where
  "extends A s s' = (prefix (events s) (events s') \<and> list_all (allowed A) (newEvents s s'))"

definition grows :: "(act \<Rightarrow> bool) \<Rightarrow> 'p session \<Rightarrow> 'p session \<Rightarrow> bool" where
  "grows A s s' = (sameFlags s s' \<and> extends A s s')"

text \<open>The calls that fill the service date and the diagnosis code, and the gated calls.\<close>

fun isServiceAct :: "act \<Rightarrow> bool" where
  "isServiceAct (EnterDos v) = True"
| "isServiceAct (EnterIcd v) = True"
| "isServiceAct a = False"

fun isGateAct :: "act \<Rightarrow> bool" where
  "isGateAct GotoAccounts = True"
| "isGateAct ClickClaimsButton = True"
| "isGateAct ApplyEntitySource = True"
| "isGateAct ApplyAssessmentResource = True"
| "isGateAct a = False"

definition plainAct :: "act \<Rightarrow> bool" where
  "plainAct a = (\<not> isServiceAct a \<and> \<not> isGateAct a)"

text \<open>
  The calls of the Patient Processor for the entry at index \<open>i\<close> of a row: those of every
  entry, and those of the service fields.
\<close>

definition patientCalls :: "inputRow \<Rightarrow> nat \<Rightarrow> act list" where
  "patientCalls row i =
     [CountClaimRows, OpenRecord i, OpenEditForm, Pause, FindBillingStatusField,
      ClickBillingStatusField, SelectBillingOption (targetBillingStatus row), SelectFirstOption,
      ClickSave, CloseFormIfOpen, WaitTable, CloseModal]"

definition serviceCalls :: "inputRow \<Rightarrow> act list" where
  "serviceCalls row = [EnterDos (dosValue row), EnterIcd (icdValue row)]"

text \<open>What every result of the Patient Processor for the entry \<open>i\<close> of a row satisfies.\<close>

definition resultOk :: "inputRow \<Rightarrow> nat \<Rightarrow> nat \<Rightarrow> patientResult \<Rightarrow> bool" where
  "resultOk row i n result =
     ((billingStatus result = [] \<or> billingStatus result = targetBillingStatus row) \<and>
      (status result = ''Billed'' \<longrightarrow> targetBillingStatus row = ''Billed'') \<and>
      (status result = ''Appt. Cancelled'' \<longrightarrow> targetBillingStatus row = ''Appt. Cancelled'') \<and>
      status result \<in> set [''Billed'', ''Appt. Cancelled'', ''Success'', ''Failed''] \<and>
      rowNumber result = u_rowNumber row \<and> patientIndex result = i + 1 \<and>
      totalPatients result = n)"

text \<open>The outcomes of the calls of one act among the events, in order.\<close>

fun outcomesOf :: "act \<Rightarrow> event list \<Rightarrow> string option list" where
  "outcomesOf a [] = []"
| "outcomesOf a (Call b outcome # es) =
     (if a = b then outcome # outcomesOf a es else outcomesOf a es)"
| "outcomesOf a (Console line # es) = outcomesOf a es"

text \<open>
  A gate and its gated call agree: when the flag is set the call has succeeded once and that
  was its last execution; when it is not set every execution so far has failed.
\<close>

definition gateInv :: "act \<Rightarrow> bool \<Rightarrow> event list \<Rightarrow> bool" where
  "gateInv a flag es =
     (\<exists>msgs. outcomesOf a es = (if flag then map Some msgs @ [None] else map Some msgs))"

definition gatesInv :: "'p session \<Rightarrow> bool" where
  "gatesInv s =
     (gateInv GotoAccounts (accountsPageNavigated s) (events s) \<and>
      gateInv ClickClaimsButton (claimsClickedOnce s) (events s) \<and>
      gateInv ApplyEntitySource (entitySourceFilterApplied s) (events s) \<and>
      gateInv ApplyAssessmentResource (assessmentResourceFilterApplied s) (events s))"

text \<open>
  One session comes after another in a run: no flag that was set is cleared, and the
  agreement of the gates with their calls is kept.
\<close>

definition advances :: "'p session \<Rightarrow> 'p session \<Rightarrow> bool" where
  "advances s s' =
     ((claimsClickedOnce s \<longrightarrow> claimsClickedOnce s') \<and>
      (accountsPageNavigated s \<longrightarrow> accountsPageNavigated s') \<and>
      (entitySourceFilterApplied s \<longrightarrow> entitySourceFilterApplied s') \<and>
      (assessmentResourceFilterApplied s \<longrightarrow> assessmentResourceFilterApplied s') \<and>
      (gatesInv s \<longrightarrow> gatesInv s'))"

text \<open>
  A driver on a page without state whose every action succeeds, with one matching claim
  entry; the examples change single actions of it.
\<close>

definition succeed :: "'a \<Rightarrow> ('a, unit) action" where
  "succeed v p = (Inr v, p)"

definition failWith :: "string \<Rightarrow> ('a, unit) action" where
  "failWith msg p = (Inl msg, p)"

definition okDriver :: "unit driver" where
  "okDriver =
     \<lparr>isClosed = (\<lambda>p. False), gotoAccounts = succeed (), clickOperations = succeed (),
      clickClaimsButton = succeed (), applyEntitySource = succeed (),
      applyAssessmentResource = succeed (), pause = succeed (), waitClaimsHeading = succeed (),
      strategies = [succeed ()], fillCustomIdFilter = (\<lambda>v. succeed ()),
      fillMrnFilter = (\<lambda>v. succeed ()), applyAppointmentDate = (\<lambda>v w. succeed ()),
      countPatients = succeed 1, countClaimRows = succeed 1, openRecord = (\<lambda>i. succeed ()),
      openEditForm = succeed True, enterDos = (\<lambda>v. succeed ()), enterIcd = (\<lambda>v. succeed ()),
      findBillingStatusField = succeed True, clickBillingStatusField = succeed (),
      selectBillingOption = (\<lambda>v. succeed ()), selectFirstOption = succeed True,
      clickSave = succeed (), closeFormIfOpen = succeed (), waitTable = succeed (),
      closeModal = succeed (), formatDate = (\<lambda>v. v)\<rparr>"

text \<open>A row with a row number and an MRN and nothing else, for the examples.\<close>

definition plainRow :: inputRow where
  "plainRow =
     \<lparr>u_rowNumber = 2, mrn = ''1001'', customId = [], dos = [], dosFormatted = [],
      appointmentDate = [], appointmentDateFormatted = [], orig_appt_dot_date = [],
      orig_appt_date = [], original_appointment_date = [], icd = [], icd_code = [],
      icd_codes = [], in_billingStatus = [], in_billing_status = [], in_billingstatus = [],
      in_qhs_billing_status = [], in_qhsbillingstatus = []\<rparr>"

definition startSession :: "unit session" where
  "startSession =
     \<lparr>page = (), claimsClickedOnce = False, accountsPageNavigated = False,
      entitySourceFilterApplied = False, assessmentResourceFilterApplied = False, events = []\<rparr>"

section \<open>Facts about the Set spread\<close>

lemma fold_spread_set:
  "set (fold (\<lambda>x acc. if x \<in> set acc then acc else acc @ [x]) xs acc) = set acc \<union> set xs"
  by (induction xs arbitrary: acc) auto

lemma fold_spread_distinct:
  "distinct acc \<Longrightarrow> distinct (fold (\<lambda>x acc. if x \<in> set acc then acc else acc @ [x]) xs acc)"
  by (induction xs arbitrary: acc) auto

lemma set_spreadSet: "set (spreadSet xs) = set xs"
  by (simp add: spreadSet_def fold_spread_set)

lemma distinct_spreadSet: "distinct (spreadSet xs)"
  by (simp add: spreadSet_def fold_spread_distinct)

lemma length_spreadSet: "length (spreadSet xs) = card (set xs)"
  using distinct_card [OF distinct_spreadSet, of xs] by (simp add: set_spreadSet)

lemma spreadSet_singleton:
  assumes "set xs = {s}"
  shows "spreadSet xs = [s]"
proof -
  have "length (spreadSet xs) = 1"
    using assms by (simp add: length_spreadSet)
  then obtain y where y: "spreadSet xs = [y]"
    by (cases "spreadSet xs") auto
  then have "set xs = {y}"
    using set_spreadSet [of xs] by simp
  with assms have "y = s" by auto
  with y show ?thesis by simp
qed

lemma length_filter_full: "length (filter P xs) = length xs \<longleftrightarrow> (\<forall>x\<in>set xs. P x)"
proof -
  have "length (filter P xs) + length (filter (\<lambda>x. \<not> P x) xs) = length xs"
    by (rule sum_length_filter_compl)
  then have "length (filter P xs) = length xs \<longleftrightarrow> filter (\<lambda>x. \<not> P x) xs = []"
    by auto
  then show ?thesis
    by (simp add: filter_empty_conv)
qed

lemma statusesOf_nonempty: "results \<noteq> [] \<Longrightarrow> statusesOf results \<noteq> []"
  by (simp add: statusesOf_def)

lemma length_statusesOf: "length (statusesOf results) = length results"
  by (simp add: statusesOf_def)

lemma all_eq_singleton: "A \<noteq> {} \<Longrightarrow> (\<forall>x\<in>A. x = a) \<longleftrightarrow> A = {a}"
  by auto

lemma failed_all_iff:
  assumes "results \<noteq> []"
  shows "length (filter (\<lambda>s. s = ''Failed'') (statusesOf results)) = length results
         \<longleftrightarrow> set (statusesOf results) = {''Failed''}"
proof -
  have ne: "set (statusesOf results) \<noteq> {}"
    using statusesOf_nonempty [OF assms] by simp
  have "length (filter (\<lambda>s. s = ''Failed'') (statusesOf results)) = length results
        \<longleftrightarrow> (\<forall>x\<in>set (statusesOf results). x = ''Failed'')"
    using length_filter_full [of "\<lambda>s. s = ''Failed''" "statusesOf results"]
    by (simp only: length_statusesOf)
  then show ?thesis
    by (simp only: all_eq_singleton [OF ne])
qed

section \<open>The aggregator's result\<close>

lemma aggregate_single:
  assumes "results \<noteq> []" and "set (statusesOf results) = {s}"
  shows "aggregateStatus results = s"
proof -
  have u: "spreadSet (statusesOf results) = [s]"
    using assms(2) by (rule spreadSet_singleton)
  have f: "length (filter (\<lambda>s. s = ''Failed'') (statusesOf results)) = length results
           \<longleftrightarrow> s = ''Failed''"
    using failed_all_iff [OF assms(1)] assms(2) by simp
  show ?thesis
  proof (cases "s = ''Failed''")
    case True
    with f have "length (filter (\<lambda>s. s = ''Failed'') (statusesOf results)) = length results"
      by simp
    with True assms(1) show ?thesis
      by (simp add: aggregateStatus_def Let_def u)
  next
    case False
    with assms(1) show ?thesis
      by (simp add: aggregateStatus_def Let_def u)
  qed
qed

lemma aggregate_mixed:
  assumes "1 < card (set (statusesOf results))"
  shows "aggregateStatus results =
     (if ''Billed'' \<in> set (statusesOf results) then
        ''Billed ('' @ show_nat (length results) @ '' patients)''
      else if ''Appt. Cancelled'' \<in> set (statusesOf results) then
        ''Appt. Cancelled ('' @ show_nat (length results) @ '' patients)''
      else if ''Success'' \<in> set (statusesOf results) then
        ''Success ('' @ show_nat (length results) @ '' patients)''
      else if ''Failed'' \<in> set (statusesOf results) then
        ''Failed ('' @ show_nat (length (filter (\<lambda>s. s = ''Failed'') (statusesOf results)))
          @ ''/'' @ show_nat (length results) @ '' patients)''
      else join '', '' (spreadSet (statusesOf results)))"
proof -
  have ne: "results \<noteq> []"
    using assms by (cases results) (simp_all add: statusesOf_def)
  have l: "length (spreadSet (statusesOf results)) \<noteq> 1" "1 < length (spreadSet (statusesOf results))"
    using assms by (simp_all add: length_spreadSet)
  have f: "length (filter (\<lambda>s. s = ''Failed'') (statusesOf results)) \<noteq> length results"
  proof
    assume "length (filter (\<lambda>s. s = ''Failed'') (statusesOf results)) = length results"
    then have "set (statusesOf results) = {''Failed''}"
      by (simp only: failed_all_iff [OF ne])
    then have "card (set (statusesOf results)) = 1"
      by (simp only: card.empty card.insert finite.emptyI empty_iff) simp
    with assms show False by simp
  qed
  show ?thesis
    using ne l f by (simp add: aggregateStatus_def Let_def set_spreadSet)
qed




section \<open>Order of the results of a row\<close>

lemma mset_statusesOf:
  assumes "mset rs = mset rs'"
  shows "mset (statusesOf rs) = mset (statusesOf rs')"
proof -
  have "mset (statusesOf rs)
        = image_mset (\<lambda>r. if status r = [] then ''Unknown'' else status r) (mset rs)"
    by (simp add: statusesOf_def)
  also have "\<dots> = image_mset (\<lambda>r. if status r = [] then ''Unknown'' else status r) (mset rs')"
    by (simp only: assms)
  also have "\<dots> = mset (statusesOf rs')"
    by (simp add: statusesOf_def)
  finally show ?thesis .
qed

lemma if_chain_eq:
  "b \<or> a \<or> s \<or> f \<Longrightarrow>
   (if b then x1 else if a then x2 else if s then x3 else if f then x4 else j) =
   (if b then x1 else if a then x2 else if s then x3 else if f then x4 else j')"
  by auto

lemma aggregate_perm_aux:
  assumes m: "mset (statusesOf rs) = mset (statusesOf rs')"
    and ne: "rs \<noteq> []"
    and p: "''Billed'' \<in> set (statusesOf rs) \<or> ''Appt. Cancelled'' \<in> set (statusesOf rs) \<or>
            ''Success'' \<in> set (statusesOf rs) \<or> ''Failed'' \<in> set (statusesOf rs) \<or>
            card (set (statusesOf rs)) \<le> 1"
  shows "aggregateStatus rs = aggregateStatus rs'"
proof -
  have len: "length rs = length rs'"
    using mset_eq_length [OF m] by (simp only: length_statusesOf)
  with ne have ne': "rs' \<noteq> []" by auto
  have s: "set (statusesOf rs) = set (statusesOf rs')"
    using m by (rule mset_eq_setD)
  have f: "length (filter (\<lambda>s. s = ''Failed'') (statusesOf rs))
           = length (filter (\<lambda>s. s = ''Failed'') (statusesOf rs'))"
  proof -
    have "mset (filter (\<lambda>s. s = ''Failed'') (statusesOf rs))
          = mset (filter (\<lambda>s. s = ''Failed'') (statusesOf rs'))"
      by (simp only: mset_filter m)
    then show ?thesis by (rule mset_eq_length)
  qed
  have c0: "card (set (statusesOf rs)) \<noteq> 0"
    using statusesOf_nonempty [OF ne] by simp
  show ?thesis
  proof (cases "card (set (statusesOf rs)) = 1")
    case True
    then obtain x where x: "set (statusesOf rs) = {x}"
      by (rule card_1_singletonE)
    from x s have x': "set (statusesOf rs') = {x}" by simp
    show ?thesis
      by (simp only: aggregate_single [OF ne x] aggregate_single [OF ne' x'])
  next
    case False
    with c0 have c: "1 < card (set (statusesOf rs))" by arith
    then have c': "1 < card (set (statusesOf rs'))" by (simp only: s)
    from c p have q: "''Billed'' \<in> set (statusesOf rs) \<or> ''Appt. Cancelled'' \<in> set (statusesOf rs) \<or>
            ''Success'' \<in> set (statusesOf rs) \<or> ''Failed'' \<in> set (statusesOf rs)"
      by arith
    show ?thesis
      unfolding aggregate_mixed [OF c] aggregate_mixed [OF c'] s [symmetric] f [symmetric]
        len [symmetric]
      by (rule if_chain_eq [OF q])
  qed
qed


text \<open>
  Claim C5 as stated fails: when a row holds several distinct statuses and none of the four
  priority statuses, the distinct statuses are joined in the order of their first
  occurrence, so two orders of the same results give two strings.
\<close>

theorem aggregateStatus_permutation_counterexample:
  "mset [withStatus ''Skipped'', withStatus ''Skipped (Dry Run)'']
     = mset [withStatus ''Skipped (Dry Run)'', withStatus ''Skipped''] \<and>
   aggregateStatus [withStatus ''Skipped'', withStatus ''Skipped (Dry Run)'']
     = ''Skipped, Skipped (Dry Run)'' \<and>
   aggregateStatus [withStatus ''Skipped (Dry Run)'', withStatus ''Skipped'']
     = ''Skipped (Dry Run), Skipped'' \<and>
   aggregateStatus [withStatus ''Skipped'', withStatus ''Skipped (Dry Run)'']
     \<noteq> aggregateStatus [withStatus ''Skipped (Dry Run)'', withStatus ''Skipped'']"
  by (simp add: aggregateStatus_def statusesOf_def spreadSet_def withStatus_def Let_def)

text \<open>
  Claim C5, amended. For two lists of results that are permutations of each other, the
  aggregator returns the same string whenever one of Billed, Appt. Cancelled, Success,
  Failed is among the statuses or at most one distinct status is present. In every case the
  two lists have the same distinct statuses; when several are present and none is a
  priority status, the result is their join in the order of first occurrence.
\<close>

theorem aggregateStatus_permutation:
  assumes "mset rs = mset rs'"
  shows
    "((''Billed'' \<in> set (statusesOf rs) \<or> ''Appt. Cancelled'' \<in> set (statusesOf rs) \<or>
       ''Success'' \<in> set (statusesOf rs) \<or> ''Failed'' \<in> set (statusesOf rs) \<or>
       card (set (statusesOf rs)) \<le> 1)
      \<longrightarrow> aggregateStatus rs = aggregateStatus rs') \<and>
     mset (spreadSet (statusesOf rs)) = mset (spreadSet (statusesOf rs')) \<and>
     (''Billed'' \<notin> set (statusesOf rs) \<and> ''Appt. Cancelled'' \<notin> set (statusesOf rs) \<and>
      ''Success'' \<notin> set (statusesOf rs) \<and> ''Failed'' \<notin> set (statusesOf rs) \<and>
      1 < card (set (statusesOf rs))
      \<longrightarrow> aggregateStatus rs = join '', '' (spreadSet (statusesOf rs)) \<and>
          aggregateStatus rs' = join '', '' (spreadSet (statusesOf rs')))"
proof (intro conjI impI)
  note m = mset_statusesOf [OF assms]
  have s: "set (statusesOf rs) = set (statusesOf rs')"
    using m by (rule mset_eq_setD)
  {
    assume p: "''Billed'' \<in> set (statusesOf rs) \<or> ''Appt. Cancelled'' \<in> set (statusesOf rs) \<or>
       ''Success'' \<in> set (statusesOf rs) \<or> ''Failed'' \<in> set (statusesOf rs) \<or>
       card (set (statusesOf rs)) \<le> 1"
    show "aggregateStatus rs = aggregateStatus rs'"
    proof (cases "rs = []")
      case True
      with assms have "rs' = []" by simp
      with True show ?thesis by simp
    next
      case False
      from m False p show ?thesis by (rule aggregate_perm_aux)
    qed
  }
  show "mset (spreadSet (statusesOf rs)) = mset (spreadSet (statusesOf rs'))"
    using s distinct_spreadSet [of "statusesOf rs"] distinct_spreadSet [of "statusesOf rs'"]
    by (simp only: set_eq_iff_mset_eq_distinct [symmetric] set_spreadSet)
  {
    assume n: "''Billed'' \<notin> set (statusesOf rs) \<and> ''Appt. Cancelled'' \<notin> set (statusesOf rs) \<and>
      ''Success'' \<notin> set (statusesOf rs) \<and> ''Failed'' \<notin> set (statusesOf rs) \<and>
      1 < card (set (statusesOf rs))"
    then have c: "1 < card (set (statusesOf rs))" by (elim conjE)
    then have c': "1 < card (set (statusesOf rs'))" by (simp only: s)
    from n show "aggregateStatus rs = join '', '' (spreadSet (statusesOf rs))"
      by (simp only: aggregate_mixed [OF c] if_False)
    from n show "aggregateStatus rs' = join '', '' (spreadSet (statusesOf rs'))"
      by (simp only: aggregate_mixed [OF c'] s [symmetric] if_False)
  }
qed

theorem aggregateStatus_permutation_witness:
  "mset [withStatus ''Billed'', withStatus ''Failed'']
     = mset [withStatus ''Failed'', withStatus ''Billed''] \<and>
   ''Billed'' \<in> set (statusesOf [withStatus ''Billed'', withStatus ''Failed'']) \<and>
   aggregateStatus [withStatus ''Billed'', withStatus ''Failed'']
     = aggregateStatus [withStatus ''Failed'', withStatus ''Billed''] \<and>
   1 < card (set (statusesOf [withStatus ''Skipped'', withStatus ''Skipped (Dry Run)''])) \<and>
   aggregateStatus [withStatus ''Skipped (Dry Run)'', withStatus ''Skipped'']
     = join '', '' (spreadSet (statusesOf [withStatus ''Skipped (Dry Run)'', withStatus ''Skipped'']))"
proof -
  let ?a = "[withStatus ''Billed'', withStatus ''Failed'']"
  let ?b = "[withStatus ''Failed'', withStatus ''Billed'']"
  let ?c = "[withStatus ''Skipped'', withStatus ''Skipped (Dry Run)'']"
  let ?d = "[withStatus ''Skipped (Dry Run)'', withStatus ''Skipped'']"
  have m: "mset ?a = mset ?b" by simp
  have b: "''Billed'' \<in> set (statusesOf ?a)"
    by (simp add: statusesOf_def withStatus_def)
  have e: "aggregateStatus ?a = aggregateStatus ?b"
    using aggregateStatus_permutation [OF m] b by blast
  have m2: "mset ?c = mset ?d" by simp
  have st: "statusesOf ?c = [''Skipped'', ''Skipped (Dry Run)'']"
    by (simp add: statusesOf_def withStatus_def)
  have c: "1 < card (set (statusesOf ?c))"
    by (simp add: st card_insert_if)
  have n: "''Billed'' \<notin> set (statusesOf ?c) \<and> ''Appt. Cancelled'' \<notin> set (statusesOf ?c) \<and>
      ''Success'' \<notin> set (statusesOf ?c) \<and> ''Failed'' \<notin> set (statusesOf ?c)"
    by (simp add: st)
  have j: "aggregateStatus ?d = join '', '' (spreadSet (statusesOf ?d))"
    using aggregateStatus_permutation [OF m2] n c by blast
  from m b e c j show ?thesis by (intro conjI)
qed

section \<open>The Status column of the header\<close>

lemma findIndex_Some:
  "findIndex P xs = Some i \<Longrightarrow> i < length xs \<and> P (xs ! i) \<and> (\<forall>j<i. \<not> P (xs ! j))"
proof (induction xs arbitrary: i)
  case Nil
  then show ?case by simp
next
  case (Cons x xs)
  show ?case
  proof (cases "P x")
    case True
    with Cons.prems show ?thesis by simp
  next
    case False
    with Cons.prems obtain k where k: "findIndex P xs = Some k" "i = Suc k"
      by auto
    from Cons.IH [OF k(1)] False k(2) show ?thesis
      by (auto simp: nth_Cons split: nat.splits)
  qed
qed

lemma findIndex_None: "findIndex P xs = None \<longleftrightarrow> (\<forall>x\<in>set xs. \<not> P x)"
  by (induction xs) auto

lemma findIndex_filter_take:
  "findIndex P xs = Some i \<Longrightarrow> filter P (take i xs) = []"
  using findIndex_Some [of P xs i] by (auto simp: filter_empty_conv in_set_conv_nth)

lemma findIndex_count:
  assumes "findIndex P xs = Some i"
  shows "length (filter P xs) = Suc (length (filter P (drop (Suc i) xs)))"
proof -
  from findIndex_Some [OF assms] have i: "i < length xs" and p: "P (xs ! i)" by simp_all
  have "xs = take i xs @ xs ! i # drop (Suc i) xs"
    using i by (simp add: id_take_nth_drop)
  then have "filter P xs = filter P (take i xs) @ filter P (xs ! i # drop (Suc i) xs)"
    by (metis filter_append)
  with p findIndex_filter_take [OF assms] show ?thesis by simp
qed

lemma splice1_count:
  assumes "findIndex P xs = Some i"
  shows "length (filter P (splice1 i xs)) = length (filter P (drop (Suc i) xs))"
  using findIndex_filter_take [OF assms] by (simp add: splice1_def)

lemma findIndex_splice1_None:
  assumes "findIndex P xs = Some i"
  shows "length (splice1 i xs) = length xs - 1"
  using findIndex_Some [OF assms] by (simp add: splice1_def)

lemma isStatusHeader_Status: "isStatusHeader (CStr ''Status'')"
  by (simp add: isStatusHeader_def toLowerCase_def lowerChar_def)

lemma placeStatusColumn_cases:
  "placeStatusColumn headers dataRows =
     (case findIndex isStatusHeader headers of
        None \<Rightarrow>
          (headers @ [CStr ''Status''], map (padTo (Suc (length headers))) dataRows,
           length headers)
      | Some i \<Rightarrow>
          if i < length headers - 1
          then (splice1 i headers @ [CStr ''Status''],
                map (\<lambda>row. padTo (length headers) (splice1 i row)) dataRows,
                length headers - 1)
          else (headers, dataRows, i))"
proof (cases "findIndex isStatusHeader headers")
  case None
  then show ?thesis by (simp add: placeStatusColumn_def)
next
  case (Some i)
  from findIndex_Some [OF Some] have "i < length headers" by simp
  then have "length (splice1 i headers) = length headers - 1"
    by (simp add: splice1_def)
  moreover have "0 < length headers" using \<open>i < length headers\<close> by arith
  ultimately show ?thesis
    using Some by (simp add: placeStatusColumn_def comp_def)
qed

lemma place_header:
  assumes "placeStatusColumn headers dataRows = (h', ds', idx)"
  shows "h' \<noteq> [] \<and> Suc idx = length h' \<and> isStatusHeader (h' ! idx) \<and>
         length (filter isStatusHeader h') = max 1 (length (filter isStatusHeader headers)) \<and>
         length ds' = length dataRows"
proof (cases "findIndex isStatusHeader headers")
  case None
  then have "filter isStatusHeader headers = []"
    by (simp add: findIndex_None filter_empty_conv)
  with assms None show ?thesis
    by (auto simp add: placeStatusColumn_cases isStatusHeader_Status nth_append)
next
  case (Some i)
  from findIndex_Some [OF Some] have i: "i < length headers" and p: "isStatusHeader (headers ! i)"
    by simp_all
  show ?thesis
  proof (cases "i < length headers - 1")
    case True
    have l: "length (splice1 i headers) = length headers - 1"
      using i by (simp add: splice1_def)
    have c: "length (filter isStatusHeader headers)
             = Suc (length (filter isStatusHeader (splice1 i headers)))"
      by (simp only: findIndex_count [OF Some] splice1_count [OF Some])
    from assms Some True have
      h: "h' = splice1 i headers @ [CStr ''Status'']" and d: "idx = length headers - 1"
      and ds: "ds' = map (\<lambda>row. padTo (length headers) (splice1 i row)) dataRows"
      by (simp_all add: placeStatusColumn_cases)
    from h d ds l c i show ?thesis
      by (simp add: isStatusHeader_Status nth_append)
  next
    case False
    with i have e: "Suc i = length headers" by arith
    then have "drop (Suc i) headers = []" by simp
    with findIndex_count [OF Some] have c: "length (filter isStatusHeader headers) = 1"
      by simp
    from assms Some False have "h' = headers" "idx = i" "ds' = dataRows"
      by (simp_all add: placeStatusColumn_cases)
    with e p c i show ?thesis by auto
  qed
qed

lemma length_writeRows [simp]: "length (writeRows rmap idx i ds) = length ds"
  by (induction ds arbitrary: i) simp_all


text \<open>
  Claim C2 as stated fails: the writer looks for the first Status header only. A header with
  two Status columns keeps two of them: the first is removed and a new one is appended.
\<close>

theorem statusWriter_header_counterexample:
  "updateOriginalExcel
     \<lparr>rows = [[CStr ''Status'', CStr ''MRN'', CStr ''status'']], cols = None\<rparr> []
    = Inr \<lparr>rows = [[CStr ''MRN'', CStr ''status'', CStr ''Status'']],
           cols = Some [defaultCol, defaultCol, defaultCol]\<rparr> \<and>
   length (filter isStatusHeader [CStr ''MRN'', CStr ''status'', CStr ''Status'']) = 2"
  by (simp add: updateOriginalExcel_def placeStatusColumn_def isStatusHeader_def toLowerCase_def
      lowerChar_def splice1_def statusCols_def padTo_def)

text \<open>
  Claim C2, amended. On every sheet with at least the header row the writer succeeds, the
  last header of the written sheet is a Status header, and the header holds as many Status
  columns as the input header did, and one if that had none. So the written header has
  exactly one Status column, the last one, whenever the input header had at most one.
\<close>

theorem statusWriter_header:
  assumes "rows sh \<noteq> []"
  shows "\<exists>sh'. updateOriginalExcel sh results = Inr sh' \<and>
           rows sh' \<noteq> [] \<and> hd (rows sh') \<noteq> [] \<and>
           length (rows sh') = length (rows sh) \<and>
           isStatusHeader (last (hd (rows sh'))) \<and>
           length (filter isStatusHeader (hd (rows sh')))
             = max 1 (length (filter isStatusHeader (hd (rows sh)))) \<and>
           (length (filter isStatusHeader (hd (rows sh))) \<le> 1
              \<longrightarrow> length (filter isStatusHeader (hd (rows sh'))) = 1)"
proof -
  from assms obtain headers dataRows where r: "rows sh = headers # dataRows"
    by (cases "rows sh") auto
  obtain h' ds' idx where pl: "placeStatusColumn headers dataRows = (h', ds', idx)"
    by (cases "placeStatusColumn headers dataRows") auto
  note f = place_header [OF pl]
  from f have "last h' = h' ! idx"
    by (metis diff_Suc_1 last_conv_nth)
  with f r pl show ?thesis
    by (simp add: updateOriginalExcel_def)
qed

theorem statusWriter_header_witness:
  "rows \<lparr>rows = [[CStr ''MRN'', CStr ''Status'', CStr ''DOS''],
                  [CStr ''1001'', CStr ''old'', CStr ''01/02/2026'']], cols = None\<rparr> \<noteq> [] \<and>
   length (filter isStatusHeader [CStr ''MRN'', CStr ''Status'', CStr ''DOS'']) \<le> 1 \<and>
   (\<exists>sh'. updateOriginalExcel
            \<lparr>rows = [[CStr ''MRN'', CStr ''Status'', CStr ''DOS''],
                     [CStr ''1001'', CStr ''old'', CStr ''01/02/2026'']], cols = None\<rparr> []
            = Inr sh' \<and>
          isStatusHeader (last (hd (rows sh'))) \<and>
          length (filter isStatusHeader (hd (rows sh'))) = 1)"
proof -
  let ?sh = "\<lparr>rows = [[CStr ''MRN'', CStr ''Status'', CStr ''DOS''],
                       [CStr ''1001'', CStr ''old'', CStr ''01/02/2026'']], cols = None\<rparr>"
  have ne: "rows ?sh \<noteq> []" by simp
  have k: "length (filter isStatusHeader [CStr ''MRN'', CStr ''Status'', CStr ''DOS'']) \<le> 1"
    by (simp add: isStatusHeader_def toLowerCase_def lowerChar_def)
  from statusWriter_header [OF ne, of "[]"] k ne show ?thesis
    by auto
qed

section \<open>The write loop\<close>

lemma length_padTo: "length (padTo n row) = max n (length row)"
  by (simp add: padTo_def)

lemma padTo_id: "n \<le> length row \<Longrightarrow> padTo n row = row"
  by (simp add: padTo_def)

lemma writeRow_eq:
  "writeRow rmap idx i row0 =
     (padTo (Suc idx) row0)[idx := statusValue rmap (Suc i) (padTo (Suc idx) row0 ! idx)]"
  by (simp add: writeRow_def statusValue_def Let_def)

lemma length_writeRow: "length (writeRow rmap idx i row0) = max (Suc idx) (length row0)"
  by (simp add: writeRow_eq length_padTo)

lemma nth_writeRows:
  "k < length ds \<Longrightarrow> writeRows rmap idx i ds ! k = writeRow rmap idx (i + k) (ds ! k)"
proof (induction ds arbitrary: i k)
  case Nil
  then show ?case by simp
next
  case (Cons d ds)
  then show ?case by (cases k) simp_all
qed

lemma addResult_apply:
  "addResult r m n =
     (if rowNumOf r = n \<and> n \<noteq> 0 then Some ((case m n of None \<Rightarrow> [] | Some rs \<Rightarrow> rs) @ [r])
      else m n)"
  by (simp add: addResult_def Let_def)

lemma fold_resultsMap:
  "fold addResult results m0 n =
   (if n = 0 \<or> filter (\<lambda>r. rowNumOf r = n) results = [] then m0 n
    else Some ((case m0 n of None \<Rightarrow> [] | Some rs \<Rightarrow> rs) @ filter (\<lambda>r. rowNumOf r = n) results))"
proof (induction results arbitrary: m0)
  case Nil
  then show ?case by simp
next
  case (Cons r rs)
  have "fold addResult (r # rs) m0 n = fold addResult rs (addResult r m0) n"
    by (simp only: fold_simps comp_apply)
  then show ?case
    by (simp only: Cons.IH) (simp add: addResult_apply)
qed

lemma resultsMap_eq:
  "resultsMap results n =
     (if n = 0 \<or> filter (\<lambda>r. rowNumOf r = n) results = [] then None
      else Some (filter (\<lambda>r. rowNumOf r = n) results))"
  by (simp add: resultsMap_def fold_resultsMap)

lemma statusValue_resultsMap:
  "statusValue (resultsMap results) (Suc n) old =
     (if filter (\<lambda>r. rowNumOf r = Suc n) results \<noteq> []
      then CStr (aggregateStatus (filter (\<lambda>r. rowNumOf r = Suc n) results))
      else if truthy old then old else CStr ''Not Processed'')"
  by (cases old) (auto simp add: statusValue_def resultsMap_eq)

lemma statusValue_idem:
  "statusValue rmap n (statusValue rmap n old) = statusValue rmap n old"
  by (cases old) (simp_all add: statusValue_def)

section \<open>The Status cell of a data row\<close>

lemma place_already_last:
  assumes "findIndex isStatusHeader headers = Some i" and "Suc i = length headers"
  shows "placeStatusColumn headers dataRows = (headers, dataRows, i)"
proof -
  from assms(2) have "\<not> i < length headers - 1" by arith
  with assms(1) show ?thesis by (simp add: placeStatusColumn_cases)
qed






section \<open>The column widths\<close>




section \<open>Running the writer twice\<close>

lemma writeRow_idem:
  "writeRow rmap idx i (writeRow rmap idx i row) = writeRow rmap idx i row"
proof -
  define p where "p = padTo (Suc idx) row"
  define v where "v = statusValue rmap (Suc i) (p ! idx)"
  have l: "idx < length p" by (simp add: p_def length_padTo)
  have w: "writeRow rmap idx i row = p[idx := v]"
    unfolding p_def v_def by (rule writeRow_eq)
  have p2: "padTo (Suc idx) (p[idx := v]) = p[idx := v]"
    using l by (simp add: padTo_id)
  have "writeRow rmap idx i (p[idx := v])
        = (padTo (Suc idx) (p[idx := v]))
            [idx := statusValue rmap (Suc i) (padTo (Suc idx) (p[idx := v]) ! idx)]"
    by (rule writeRow_eq)
  also have "\<dots> = (p[idx := v])[idx := statusValue rmap (Suc i) (p[idx := v] ! idx)]"
    by (simp only: p2)
  also have "\<dots> = p[idx := statusValue rmap (Suc i) v]"
    using l by (simp only: list_update_overwrite nth_list_update_eq)
  also have "\<dots> = p[idx := v]"
    unfolding v_def by (simp only: statusValue_idem)
  finally show ?thesis by (simp only: w)
qed

lemma writeRows_idem:
  "writeRows rmap idx i (writeRows rmap idx i ds) = writeRows rmap idx i ds"
  by (induction ds arbitrary: i) (simp_all add: writeRow_idem)

lemma writeRow_rect:
  assumes "length row = Suc idx"
  shows "writeRow rmap idx i row = row[idx := statusValue rmap (Suc i) (row ! idx)]"
proof -
  have "padTo (Suc idx) row = row"
    using assms by (simp add: padTo_def)
  then show ?thesis
    by (simp only: writeRow_eq)
qed

lemma findIndex_le:
  assumes "findIndex P xs = Some j" and "idx < length xs" and "P (xs ! idx)"
  shows "j \<le> idx"
proof (rule ccontr)
  assume "\<not> j \<le> idx"
  then have "idx < j" by simp
  with findIndex_Some [OF assms(1)] have "\<not> P (xs ! idx)" by simp
  with assms(3) show False by simp
qed

lemma findIndex_exists:
  assumes "idx < length xs" and "P (xs ! idx)"
  shows "\<exists>j. findIndex P xs = Some j"
proof (cases "findIndex P xs")
  case None
  then have "\<forall>x\<in>set xs. \<not> P x" by (simp add: findIndex_None)
  with assms show ?thesis by (simp add: nth_mem)
next
  case (Some j)
  then show ?thesis by simp
qed

lemma two_status:
  assumes f: "findIndex P xs = Some j" and l: "idx < length xs" and p: "P (xs ! idx)"
    and less: "j < idx"
  shows "2 \<le> length (filter P xs)"
proof -
  have "xs ! idx = drop (Suc j) xs ! (idx - Suc j)"
    using l less by simp
  moreover have "idx - Suc j < length (drop (Suc j) xs)"
    using l less by simp
  ultimately have "xs ! idx \<in> set (drop (Suc j) xs)"
    by (metis nth_mem)
  with p have "filter P (drop (Suc j) xs) \<noteq> []"
    by (simp add: filter_empty_conv) blast
  then have "1 \<le> length (filter P (drop (Suc j) xs))"
    by (cases "filter P (drop (Suc j) xs)") simp_all
  with findIndex_count [OF f] show ?thesis by simp
qed

text \<open>A placement that appends the Status column leaves an empty last cell in every
  row of a rectangular sheet.\<close>

lemma pad_spliced:
  assumes "length r = Suc n" and "i < n"
  shows "padTo (Suc n) (splice1 i r) = splice1 i r @ [CStr []]"
    and "length (splice1 i r) = n"
proof -
  show l: "length (splice1 i r) = n"
    using assms by (simp add: splice1_def)
  have "Suc n - length (splice1 i r) = Suc 0"
    unfolding l by simp
  then show "padTo (Suc n) (splice1 i r) = splice1 i r @ [CStr []]"
    unfolding padTo_def by simp
qed

lemma place_repair_rect:
  assumes f: "findIndex isStatusHeader h = Some i" and less: "i < length h - 1"
    and rect: "\<forall>row\<in>set ds. length row = length h"
  shows "\<exists>dp. placeStatusColumn h ds = (splice1 i h @ [CStr ''Status''], dp, length h - 1) \<and>
          length dp = length ds \<and>
          (\<forall>row\<in>set dp. length row = length h \<and> row ! (length h - 1) = CStr [])"
proof -
  obtain n where n: "length h = Suc n" "i < n"
    using less by (cases "length h") simp_all
  let ?dp = "map (\<lambda>row. padTo (length h) (splice1 i row)) ds"
  have pl: "placeStatusColumn h ds = (splice1 i h @ [CStr ''Status''], ?dp, length h - 1)"
    using f less by (simp add: placeStatusColumn_cases)
  have "\<forall>row\<in>set ?dp. length row = length h \<and> row ! (length h - 1) = CStr []"
  proof
    fix row assume "row \<in> set ?dp"
    then obtain r where r: "r \<in> set ds" "row = padTo (length h) (splice1 i r)"
      by (auto simp only: set_map image_iff)
    from rect r(1) n(1) have lr: "length r = Suc n" by simp
    note ps = pad_spliced [OF lr n(2)]
    have "row = splice1 i r @ [CStr []]"
      unfolding r(2) n(1) by (rule ps(1))
    then show "length row = length h \<and> row ! (length h - 1) = CStr []"
      using ps(2) n(1) by (simp add: nth_append)
  qed
  moreover have "length ?dp = length ds" by simp
  ultimately show ?thesis using pl by blast
qed

lemma writeRows_fresh:
  assumes "\<forall>row\<in>set dp. length row = Suc idx \<and> row ! idx = CStr []"
  shows "map (\<lambda>row. row ! idx) (writeRows rmap idx i dp)
           = map (\<lambda>k. statusValue rmap (Suc (i + k)) (CStr [])) [0..<length dp]"
    and "\<forall>row\<in>set (writeRows rmap idx i dp). length row = Suc idx"
proof -
  have n: "\<And>k. k < length dp \<Longrightarrow>
             writeRows rmap idx i dp ! k
               = (dp ! k)[idx := statusValue rmap (Suc (i + k)) (CStr [])]"
  proof -
    fix k assume k: "k < length dp"
    then have m: "dp ! k \<in> set dp" by (rule nth_mem)
    with assms have l: "length (dp ! k) = Suc idx" and e: "dp ! k ! idx = CStr []"
      by blast+
    show "writeRows rmap idx i dp ! k
            = (dp ! k)[idx := statusValue rmap (Suc (i + k)) (CStr [])]"
      by (simp only: nth_writeRows [OF k] writeRow_rect [OF l] e)
  qed
  have nl: "\<And>k. k < length dp \<Longrightarrow> length (dp ! k) = Suc idx"
    using assms nth_mem by blast
  show "map (\<lambda>row. row ! idx) (writeRows rmap idx i dp)
           = map (\<lambda>k. statusValue rmap (Suc (i + k)) (CStr [])) [0..<length dp]"
  proof (rule nth_equalityI)
    show "length (map (\<lambda>row. row ! idx) (writeRows rmap idx i dp))
          = length (map (\<lambda>k. statusValue rmap (Suc (i + k)) (CStr [])) [0..<length dp])"
      by simp
  next
    fix k assume "k < length (map (\<lambda>row. row ! idx) (writeRows rmap idx i dp))"
    then have k: "k < length dp" by simp
    from k nl [OF k] show "map (\<lambda>row. row ! idx) (writeRows rmap idx i dp) ! k
          = map (\<lambda>k. statusValue rmap (Suc (i + k)) (CStr [])) [0..<length dp] ! k"
      by (simp add: n [OF k])
  qed
  show "\<forall>row\<in>set (writeRows rmap idx i dp). length row = Suc idx"
  proof
    fix row assume "row \<in> set (writeRows rmap idx i dp)"
    then obtain k where k: "k < length dp" "row = writeRows rmap idx i dp ! k"
      by (metis in_set_conv_nth length_writeRows)
    from k(2) n [OF k(1)] nl [OF k(1)] show "length row = Suc idx" by simp
  qed
qed

lemma update_rows:
  assumes "rows sh = h # ds" and "placeStatusColumn h ds = (h1, dp, idx)"
  shows "updateOriginalExcel sh results =
           Inr \<lparr>rows = h1 # writeRows (resultsMap results) idx 1 dp,
                cols = Some (statusCols (cols sh) h1 idx)\<rparr>"
  using assms by (simp add: updateOriginalExcel_def)

lemma update_Inr_rows:
  assumes "updateOriginalExcel sh results = Inr sh1"
  shows "\<exists>h ds. rows sh = h # ds"
  using assms by (cases "rows sh") (simp_all add: updateOriginalExcel_def)

text \<open>Second run when the Status column is the only one and the last.\<close>

lemma second_run_same:
  assumes f: "findIndex isStatusHeader h1 = Some idx" and l: "Suc idx = length h1"
    and r1: "rows sh1 = h1 # writeRows rmap idx 1 dp" and m: "rmap = resultsMap results"
  shows "\<exists>sh2. updateOriginalExcel sh1 results = Inr sh2 \<and> rows sh2 = rows sh1"
proof -
  have "placeStatusColumn h1 (writeRows rmap idx 1 dp) = (h1, writeRows rmap idx 1 dp, idx)"
    using f l by (rule place_already_last)
  from update_rows [OF r1 this, of results] show ?thesis
    by (simp add: m r1 writeRows_idem)
qed

text \<open>Two runs on a rectangular sheet whose header has several Status columns.\<close>

lemma repair_run:
  assumes rw: "rows sh = h # ds"
    and f: "findIndex isStatusHeader h = Some i" and less: "i < length h - 1"
    and rect: "\<forall>row\<in>set ds. length row = length h"
  shows "\<exists>sh1 h1 d1. updateOriginalExcel sh results = Inr sh1 \<and> rows sh1 = h1 # d1 \<and>
           length h1 = length h \<and> length d1 = length ds \<and>
           (\<forall>row\<in>set d1. length row = length h1) \<and>
           length (filter isStatusHeader h1) = length (filter isStatusHeader h) \<and>
           lastColumn sh1
             = map (\<lambda>k. statusValue (resultsMap results) (Suc (1 + k)) (CStr [])) [0..<length ds]"
proof -
  from place_repair_rect [OF f less rect] obtain dp where
    pl: "placeStatusColumn h ds = (splice1 i h @ [CStr ''Status''], dp, length h - 1)"
    and ldp: "length dp = length ds"
    and dp: "\<forall>row\<in>set dp. length row = length h \<and> row ! (length h - 1) = CStr []"
    by blast
  obtain n where n: "length h = Suc n" "i < n"
    using less by (cases "length h") simp_all
  let ?h1 = "splice1 i h @ [CStr ''Status'']"
  let ?d1 = "writeRows (resultsMap results) n 1 dp"
  let ?sh1 = "\<lparr>rows = ?h1 # ?d1, cols = Some (statusCols (cols sh) ?h1 n)\<rparr>"
  have idx: "length h - 1 = n" using n(1) by simp
  have dp': "\<forall>row\<in>set dp. length row = Suc n \<and> row ! n = CStr []"
    using dp n(1) by simp
  have u: "updateOriginalExcel sh results = Inr ?sh1"
    using update_rows [OF rw pl, of results] by (simp only: idx)
  have lh: "length ?h1 = length h"
    using n by (simp add: splice1_def)
  have c: "length (filter isStatusHeader ?h1) = length (filter isStatusHeader h)"
    using place_header [OF pl] findIndex_count [OF f] by simp
  have lc: "lastColumn ?sh1
            = map (\<lambda>k. statusValue (resultsMap results) (Suc (1 + k)) (CStr [])) [0..<length ds]"
    using writeRows_fresh(1) [OF dp', of "resultsMap results" 1] lh n(1) ldp
    by (simp add: lastColumn_def)
  have rc: "\<forall>row\<in>set ?d1. length row = length ?h1"
    using writeRows_fresh(2) [OF dp', of "resultsMap results" 1] lh n(1) by simp
  have "rows ?sh1 = ?h1 # ?d1" by simp
  moreover have "length ?d1 = length ds" by (simp add: ldp)
  ultimately show ?thesis
    using u lh rc c lc by blast
qed

lemma first_not_last:
  assumes "2 \<le> length (filter P xs)"
  shows "\<exists>i. findIndex P xs = Some i \<and> i < length xs - 1"
proof (cases "findIndex P xs")
  case None
  then have "filter P xs = []"
    by (simp add: findIndex_None filter_empty_conv)
  with assms show ?thesis by simp
next
  case (Some i)
  from findIndex_Some [OF Some] have i: "i < length xs" by simp
  have "i < length xs - 1"
  proof (rule ccontr)
    assume "\<not> i < length xs - 1"
    with i have "drop (Suc i) xs = []" by simp
    with findIndex_count [OF Some] assms show False by simp
  qed
  with Some show ?thesis by simp
qed

lemma only_status_last:
  assumes c: "length (filter P xs) = 1" and l: "Suc idx = length xs" and p: "P (xs ! idx)"
  shows "findIndex P xs = Some idx"
proof -
  from l have il: "idx < length xs" by simp
  from findIndex_exists [of idx xs P, OF il p] obtain j where j: "findIndex P xs = Some j"
    by blast
  from findIndex_le [of P xs j idx, OF j il p] have "j \<le> idx" .
  moreover have "\<not> j < idx"
  proof
    assume "j < idx"
    from two_status [of P xs j idx, OF j il p this] c show False by simp
  qed
  ultimately have "j = idx" by simp
  with j show ?thesis by simp
qed



section \<open>The strategies of the Element Resolver\<close>

lemma perform_cases:
  obtains (ok) v p where "f (page s) = (Inr v, p)"
      "perform a f s = (Inr v, s\<lparr>page := p, events := events s @ [Call a None]\<rparr>)"
  | (fail) msg p where "f (page s) = (Inl msg, p)"
      "perform a f s = (Inl msg, s\<lparr>page := p, events := events s @ [Call a (Some msg)]\<rparr>)"
proof (cases "f (page s)")
  case (Pair r p)
  show ?thesis
  proof (cases r)
    case (Inl msg)
    with Pair show ?thesis by (intro fail [of msg p]) (simp_all add: perform_def)
  next
    case (Inr v)
    with Pair show ?thesis by (intro ok [of v p]) (simp_all add: perform_def)
  qed
qed

lemma tryStrategies_shape:
  "i < length (strategies d) \<Longrightarrow>
   \<exists>msgs.
     (fst (tryStrategies d i s) = Inr () \<and> i + length msgs < length (strategies d) \<and>
      events (snd (tryStrategies d i s))
        = events s @ failedAttempts i msgs
          @ [Console (''Trying strategy '' @ show_nat (i + length msgs + 1) @ ''...''),
             Call (CustomIdStrategy (i + length msgs)) None,
             Console (''Custom ID filter clicked using strategy ''
                      @ show_nat (i + length msgs + 1))])
     \<or>
     (msgs \<noteq> [] \<and>
      fst (tryStrategies d i s)
        = Inl (''All strategies failed to find Custom ID filter. Last error: '' @ last msgs) \<and>
      i + length msgs = length (strategies d) \<and>
      events (snd (tryStrategies d i s)) = events s @ failedAttempts i msgs)"
proof (induction d i s rule: tryStrategies.induct)
  case (1 d i s)
  let ?s0 = "console (''Trying strategy '' @ show_nat (i + 1) @ ''...'') s"
  show ?case
  proof (cases rule: perform_cases [of "strategies d ! i" ?s0 "CustomIdStrategy i"])
    case (ok v p)
    have "fst (tryStrategies d i s) = Inr () \<and> i + length ([]::string list) < length (strategies d) \<and>
      events (snd (tryStrategies d i s))
        = events s @ failedAttempts i []
          @ [Console (''Trying strategy '' @ show_nat (i + length ([]::string list) + 1) @ ''...''),
             Call (CustomIdStrategy (i + length ([]::string list))) None,
             Console (''Custom ID filter clicked using strategy ''
                      @ show_nat (i + length ([]::string list) + 1))]"
      using "1.prems" ok(2)
      by (subst (1 2) tryStrategies.simps) (simp add: console_def)
    then show ?thesis by blast
  next
    case (fail msg p)
    let ?s1 = "?s0\<lparr>page := p, events := events ?s0 @ [Call (CustomIdStrategy i) (Some msg)]\<rparr>"
    let ?s2 = "console (''Strategy '' @ show_nat (i + 1) @ '' failed: '' @ msg) ?s1"
    have ev2: "events ?s2 = events s @ failedAttempts i [msg]"
      by (simp add: console_def)
    show ?thesis
    proof (cases "i = length (strategies d) - 1")
      case True
      have "[msg] \<noteq> [] \<and>
        fst (tryStrategies d i s)
          = Inl (''All strategies failed to find Custom ID filter. Last error: '' @ last [msg]) \<and>
        i + length [msg] = length (strategies d) \<and>
        events (snd (tryStrategies d i s)) = events s @ failedAttempts i [msg]"
        using "1.prems" fail(2) True
        by (subst (1 2) tryStrategies.simps) (simp add: console_def)
      then show ?thesis by blast
    next
      case False
      with "1.prems" have next_ok: "i + 1 < length (strategies d)" by arith
      have step: "tryStrategies d i s = tryStrategies d (i + 1) ?s2"
        using "1.prems" fail(2) False
        by (subst tryStrategies.simps) (simp add: Let_def)
      from "1.IH" [OF "1.prems" fail(2) [symmetric] refl refl False next_ok]
      obtain msgs where
        ih: "(fst (tryStrategies d (i + 1) ?s2) = Inr () \<and>
              i + 1 + length msgs < length (strategies d) \<and>
              events (snd (tryStrategies d (i + 1) ?s2))
                = events ?s2 @ failedAttempts (i + 1) msgs
                  @ [Console (''Trying strategy '' @ show_nat (i + 1 + length msgs + 1) @ ''...''),
                     Call (CustomIdStrategy (i + 1 + length msgs)) None,
                     Console (''Custom ID filter clicked using strategy ''
                              @ show_nat (i + 1 + length msgs + 1))])
             \<or>
             (msgs \<noteq> [] \<and>
              fst (tryStrategies d (i + 1) ?s2)
                = Inl (''All strategies failed to find Custom ID filter. Last error: ''
                       @ last msgs) \<and>
              i + 1 + length msgs = length (strategies d) \<and>
              events (snd (tryStrategies d (i + 1) ?s2))
                = events ?s2 @ failedAttempts (i + 1) msgs)"
        by blast
      show ?thesis
        apply (rule exI [of _ "msg # msgs"])
        using ih unfolding step ev2
        by (auto simp add: add.commute add.left_commute)
    qed
  qed
qed





section \<open>Events added by a step\<close>

lemma extends_refl: "extends A s s"
  by (simp add: extends_def newEvents_def)

lemma extends_trans:
  assumes "extends A s s1" and "extends A s1 s2"
  shows "extends A s s2"
proof -
  from assms obtain e1 e2 where e: "events s1 = events s @ e1" "events s2 = events s1 @ e2"
    by (auto simp add: extends_def prefix_def)
  with assms show ?thesis
    by (simp add: extends_def newEvents_def)
qed

lemma extends_mono:
  assumes "extends A s s'" and "\<And>a. A a \<Longrightarrow> B a"
  shows "extends B s s'"
proof -
  have "\<And>e. allowed A e \<Longrightarrow> allowed B e"
    using assms(2) by (case_tac e) simp_all
  with assms(1) show ?thesis
    by (auto simp add: extends_def list_all_iff)
qed

lemma extends_console: "extends A s (console line s)"
  by (simp add: extends_def newEvents_def console_def)

lemma extends_perform: "A a \<Longrightarrow> extends A s (snd (perform a f s))"
  by (cases rule: perform_cases [of f s a])
     (simp_all add: extends_def newEvents_def)

lemma extends_events:
  "extends A s s' \<Longrightarrow> events s' = events s @ newEvents s s'"
  by (auto simp add: extends_def prefix_def newEvents_def)

lemma newEvents_trans:
  assumes "extends A s s1" and "extends B s1 s2"
  shows "newEvents s s2 = newEvents s s1 @ newEvents s1 s2"
proof -
  from assms obtain e1 e2 where e: "events s1 = events s @ e1" "events s2 = events s1 @ e2"
    by (auto simp add: extends_def prefix_def)
  then show ?thesis by (simp add: newEvents_def)
qed

lemma extends_flags: "extends A s s' \<Longrightarrow> extends A s (s'\<lparr>accountsPageNavigated := b\<rparr>)"
  "extends A s s' \<Longrightarrow> extends A s (s'\<lparr>claimsClickedOnce := b\<rparr>)"
  "extends A s s' \<Longrightarrow> extends A s (s'\<lparr>entitySourceFilterApplied := b\<rparr>)"
  "extends A s s' \<Longrightarrow> extends A s (s'\<lparr>assessmentResourceFilterApplied := b\<rparr>)"
  by (simp_all add: extends_def newEvents_def)

lemma sameFlags_refl: "sameFlags s s"
  by (simp add: sameFlags_def)

lemma sameFlags_trans: "sameFlags s s1 \<Longrightarrow> sameFlags s1 s2 \<Longrightarrow> sameFlags s s2"
  by (simp add: sameFlags_def)

lemma sameFlags_console: "sameFlags s (console line s)"
  by (simp add: sameFlags_def console_def)

lemma sameFlags_perform: "sameFlags s (snd (perform a f s))"
  by (cases rule: perform_cases [of f s a]) (simp_all add: sameFlags_def)

lemma grows_refl: "grows A s s"
  by (simp add: grows_def sameFlags_refl extends_refl)

lemma grows_trans: "grows A s s1 \<Longrightarrow> grows A s1 s2 \<Longrightarrow> grows A s s2"
  unfolding grows_def using sameFlags_trans extends_trans by blast

lemma grows_mono: "grows A s s' \<Longrightarrow> (\<And>a. A a \<Longrightarrow> B a) \<Longrightarrow> grows B s s'"
  unfolding grows_def using extends_mono by blast

lemma grows_console: "grows A s (console line s)"
  by (simp add: grows_def sameFlags_console extends_console)

lemma grows_perform: "A a \<Longrightarrow> grows A s (snd (perform a f s))"
  by (simp add: grows_def sameFlags_perform extends_perform)

lemma perform_effect:
  "perform a f s = (r, s') \<Longrightarrow>
     events s' = events s @ [Call a (case r of Inl m \<Rightarrow> Some m | Inr v \<Rightarrow> None)] \<and>
     claimsClickedOnce s' = claimsClickedOnce s \<and>
     accountsPageNavigated s' = accountsPageNavigated s \<and>
     entitySourceFilterApplied s' = entitySourceFilterApplied s \<and>
     assessmentResourceFilterApplied s' = assessmentResourceFilterApplied s"
  by (cases rule: perform_cases [of f s a]) auto

lemma grows_iff:
  "grows A s s' \<longleftrightarrow>
     sameFlags s s' \<and> (\<exists>evs. events s' = events s @ evs \<and> list_all (allowed A) evs)"
  by (auto simp add: grows_def extends_def newEvents_def prefix_def)

lemma case_snd:
  "Q (snd g) \<Longrightarrow> (\<And>r s1. Q s1 \<Longrightarrow> Q (snd (K r s1)))
   \<Longrightarrow> Q (snd (case g of (r, s1) \<Rightarrow> K r s1))"
  by (cases g) simp

lemma case_ses:
  "Q (snd g) \<Longrightarrow> (\<And>r s1. Q s1 \<Longrightarrow> Q (K r s1)) \<Longrightarrow> Q (case g of (r, s1) \<Rightarrow> K r s1)"
  by (cases g) simp

lemma case_snd3:
  "Q (snd g) \<Longrightarrow> (\<And>r s1. Q s1 \<Longrightarrow> Q (snd (snd (K r s1))))
   \<Longrightarrow> Q (snd (snd (case g of (r, s1) \<Rightarrow> K r s1)))"
  by (cases g) simp

lemma case_trip:
  "Q (snd (snd g)) \<Longrightarrow> (\<And>r rs s1. Q s1 \<Longrightarrow> Q (snd (K r rs s1)))
   \<Longrightarrow> Q (snd (case g of (r, rs, s1) \<Rightarrow> K r rs s1))"
  by (cases g) simp

lemma grows_log: "grows A s0 s \<Longrightarrow> grows A s0 (console line s)"
  using grows_trans [OF _ grows_console] .

lemma grows_do: "grows A s0 s \<Longrightarrow> A a \<Longrightarrow> grows A s0 (snd (perform a f s))"
  using grows_trans [of A s0 s "snd (perform a f s)"] grows_perform [of A a s f] by simp

lemma grows_saveAndConfirm:
  assumes "grows A s0 s" "A ClickSave" "A CloseFormIfOpen" "A Pause" "A WaitTable"
  shows "grows A s0 (snd (saveAndConfirm d s))"
  unfolding saveAndConfirm_def using assms
  by (auto intro!: case_snd [of "grows A s0"] grows_do grows_log split: sum.split)

lemma grows_openPatientRecord:
  assumes "grows A s0 s" "A CountClaimRows" "A (OpenRecord i)" "A OpenEditForm" "A Pause"
  shows "grows A s0 (snd (openPatientRecord d i s))"
  unfolding openPatientRecord_def using assms
  by (auto intro!: case_snd [of "grows A s0"] grows_do grows_log split: sum.split)

lemma grows_fillServiceFields:
  assumes "grows A s0 s" "A (EnterDos (dosValue row))" "A (EnterIcd (icdValue row))"
  shows "grows A s0 (fillServiceFields d row s)"
  unfolding fillServiceFields_def Let_def using assms
  by (auto intro!: case_ses [of "grows A s0"] grows_do grows_log split: sum.split)

lemma grows_setBillingClassification:
  assumes "grows A s0 s" "A FindBillingStatusField" "A ClickBillingStatusField"
    "A (SelectBillingOption target)" "A SelectFirstOption"
  shows "grows A s0 (snd (setBillingClassification d target s))"
  unfolding setBillingClassification_def using assms
  by (auto intro!: case_snd [of "grows A s0"] grows_do grows_log split: sum.split)

lemma grows_patientFailed:
  assumes "grows A s0 s" "A CloseModal"
  shows "grows A s0 (snd (patientFailed d n msg result s))"
  unfolding patientFailed_def using assms
  by (auto intro!: grows_do grows_log)

lemma grows_updateMrnFilter:
  assumes "grows A s0 s" "A (FillMrnFilter (mrn row))"
  shows "grows A s0 (snd (updateMrnFilter d row s))"
  unfolding updateMrnFilter_def using assms
  by (auto intro!: case_snd [of "grows A s0"] grows_do grows_log split: sum.split)

lemma grows_updateAppointmentDateFilter:
  assumes "grows A s0 s" "A (ApplyAppointmentDate (appointmentDateValue d row))"
  shows "grows A s0 (updateAppointmentDateFilter d row s)"
  unfolding updateAppointmentDateFilter_def using assms
  by (auto intro!: case_ses [of "grows A s0"] grows_do grows_log split: sum.split)

lemma grows_tryStrategies:
  assumes "\<And>k. A (CustomIdStrategy k)"
  shows "grows A s0 s \<Longrightarrow> grows A s0 (snd (tryStrategies d i s))"
proof (induction "length (strategies d) - i" arbitrary: i s)
  case 0
  then show ?case by (subst tryStrategies.simps) simp
next
  case (Suc n)
  have ih: "\<And>s'. grows A s0 s' \<Longrightarrow> grows A s0 (snd (tryStrategies d (Suc i) s'))"
    using Suc.hyps(1) [of "Suc i"] Suc.hyps(2) by simp
  show ?case
    by (subst tryStrategies.simps)
       (auto intro!: case_snd [of "grows A s0"] grows_do grows_log ih assms Suc.prems
             simp: Let_def split: sum.split)
qed

lemma grows_clickCustomIdFilter:
  assumes "grows A s0 s" "A WaitClaimsHeading" "\<And>k. A (CustomIdStrategy k)"
  shows "grows A s0 (snd (clickCustomIdFilter d s))"
  unfolding clickCustomIdFilter_def using assms
  by (auto intro!: case_snd [of "grows A s0"] grows_do grows_log grows_tryStrategies
      split: sum.split)

lemma grows_updateCustomIdFilter:
  assumes "grows A s0 s" "A WaitClaimsHeading" "\<And>k. A (CustomIdStrategy k)"
    "A (FillCustomIdFilter (trim (customId row)))"
  shows "grows A s0 (updateCustomIdFilter d row s)"
  unfolding updateCustomIdFilter_def Let_def using assms
  by (auto intro!: case_ses [of "grows A s0"] grows_do grows_log grows_clickCustomIdFilter
      split: sum.split)

section \<open>The branch of the Patient Processor\<close>

lemma grows_processPatientClaim:
  assumes "grows A s0 s"
    and "A CountClaimRows" "A (OpenRecord i)" "A OpenEditForm" "A Pause"
      "A FindBillingStatusField" "A ClickBillingStatusField"
      "A (SelectBillingOption (targetBillingStatus row))" "A SelectFirstOption"
      "A ClickSave" "A CloseFormIfOpen" "A WaitTable" "A CloseModal"
    and "\<not> isCancelledAppointment row \<Longrightarrow> A (EnterDos (dosValue row))"
    and "\<not> isCancelledAppointment row \<Longrightarrow> A (EnterIcd (icdValue row))"
  shows "grows A s0 (snd (processPatientClaim d row i n s))"
  unfolding processPatientClaim_def Let_def using assms
  by (auto intro!: case_snd [of "grows A s0"] grows_openPatientRecord grows_fillServiceFields
        grows_setBillingClassification grows_saveAndConfirm grows_patientFailed
      split: sum.split)


lemma grows_extends: "grows A s s' \<Longrightarrow> extends A s s'"
  by (simp add: grows_def)

lemma extends_any: "extends A s s' \<Longrightarrow> extends (\<lambda>a. True) s s'"
  by (rule extends_mono) simp_all

lemma newEvents_mid:
  assumes "extends A s s1" and "extends B s1 s2" and "extends C s2 s3"
  shows "set (newEvents s1 s2) \<subseteq> set (newEvents s s3)"
proof -
  have a: "extends (\<lambda>a. True) s s2"
    by (rule extends_trans [OF extends_any [OF assms(1)] extends_any [OF assms(2)]])
  have "newEvents s s3 = newEvents s s2 @ newEvents s2 s3"
    using a assms(3) by (rule newEvents_trans)
  moreover have "newEvents s s2 = newEvents s s1 @ newEvents s1 s2"
    using assms(1) assms(2) by (rule newEvents_trans)
  ultimately show ?thesis by auto
qed

lemma fill_has_dos:
  assumes "dosValue row \<noteq> []"
  shows "\<exists>outcome. Call (EnterDos (dosValue row)) outcome
           \<in> set (newEvents s (fillServiceFields d row s))"
proof -
  let ?A = "\<lambda>a::act. True"
  obtain r s1 where p: "perform (EnterDos (dosValue row)) (enterDos d (dosValue row)) s = (r, s1)"
    by force
  from perform_effect [OF p] have e1: "newEvents s s1
      = [Call (EnterDos (dosValue row)) (case r of Inl m \<Rightarrow> Some m | Inr v \<Rightarrow> None)]"
    by (simp add: newEvents_def)
  have g1: "grows ?A s s1"
    using grows_perform [of ?A "EnterDos (dosValue row)" s "enterDos d (dosValue row)"] p
    by simp
  have g2: "grows ?A s1 (fillServiceFields d row s)"
    unfolding fillServiceFields_def Let_def using assms p
    by (auto intro!: case_ses [of "grows ?A s1"] grows_do grows_log grows_refl split: sum.split)
  have "newEvents s (fillServiceFields d row s)
        = newEvents s s1 @ newEvents s1 (fillServiceFields d row s)"
    using grows_extends [OF g1] grows_extends [OF g2] by (rule newEvents_trans)
  with e1 show ?thesis by auto
qed


lemma fill_has_icd:
  assumes "icdValue row \<noteq> []"
  shows "\<exists>outcome. Call (EnterIcd (icdValue row)) outcome
           \<in> set (newEvents s (fillServiceFields d row s))"
proof -
  let ?A = "\<lambda>a::act. True"
  define s1 where "s1 =
     (if dosValue row \<noteq> [] then
               (case perform (EnterDos (dosValue row)) (enterDos d (dosValue row)) s of
                  (Inr u, s') \<Rightarrow> s'
                | (Inl msg, s') \<Rightarrow>
                    console (''Date of Service entry failed: '' @ msg @ ''. Continuing...'') s')
             else s)"
  have g1: "grows ?A s s1"
    unfolding s1_def
    by (auto intro!: case_ses [of "grows ?A s"] grows_do grows_log grows_refl split: sum.split)
  obtain r s2 where p: "perform (EnterIcd (icdValue row)) (enterIcd d (icdValue row)) s1 = (r, s2)"
    by force
  from perform_effect [OF p] have e2: "newEvents s1 s2
      = [Call (EnterIcd (icdValue row)) (case r of Inl m \<Rightarrow> Some m | Inr v \<Rightarrow> None)]"
    by (simp add: newEvents_def)
  have g2: "grows ?A s1 s2"
    using grows_perform [of ?A "EnterIcd (icdValue row)" s1 "enterIcd d (icdValue row)"] p
    by simp
  have f: "fillServiceFields d row s
           = (case r of Inr u \<Rightarrow> s2
              | Inl msg \<Rightarrow> console (''ICD entry failed: '' @ msg @ ''. Continuing...'') s2)"
    using assms p unfolding fillServiceFields_def Let_def s1_def [symmetric]
    by (simp split: sum.split)
  have g3: "grows ?A s2 (fillServiceFields d row s)"
    unfolding f by (auto intro!: grows_log grows_refl split: sum.split)
  from newEvents_mid [OF grows_extends [OF g1] grows_extends [OF g2] grows_extends [OF g3]] e2
  show ?thesis by auto
qed

lemma case_fst:
  "(\<And>r s1. Q (fst (K r s1))) \<Longrightarrow> Q (fst (case g of (r, s1) \<Rightarrow> K r s1))"
  by (cases g) simp

lemma resultOk_failed:
  assumes "rowNumber r = u_rowNumber row" "patientIndex r = i + 1" "totalPatients r = n"
    "billingStatus r = [] \<or> billingStatus r = targetBillingStatus row"
  shows "resultOk row i n (fst (patientFailed d n msg r s))"
  using assms by (simp add: resultOk_def patientFailed_def)

lemma resultOk_succeeded:
  assumes "rowNumber r = u_rowNumber row" "patientIndex r = i + 1" "totalPatients r = n"
    "billingStatus r = targetBillingStatus row"
  shows "resultOk row i n (succeeded b n r)"
  using assms by (simp add: resultOk_def succeeded_def Let_def)

lemma resultOk_processPatientClaim:
  "resultOk row i n (fst (processPatientClaim d row i n s))"
  unfolding processPatientClaim_def Let_def
  by (auto intro!: case_fst [of "resultOk row i n"] resultOk_failed resultOk_succeeded
      split: sum.split)

lemma target_cases:
  "targetBillingStatus row = (if isCancelledAppointment row then ''Appt. Cancelled'' else ''Billed'')"
  by (simp add: targetBillingStatus_def isCancelledAppointment_def)

lemma after_open:
  assumes o: "openPatientRecord d i s = (Inr u, s1)"
    and s2: "s2 = (if isCancelledAppointment row then s1 else fillServiceFields d row s1)"
  shows "grows (\<lambda>a. True) s2 (snd (processPatientClaim d row i n s))"
proof -
  have eq: "processPatientClaim d row i n s =
     (let result =
            \<lparr>rowNumber = u_rowNumber row, alt_rowNumber = 0,
             patientIndex = i + 1, totalPatients = n, status = ''Unknown'',
             billingStatus = [], errorMessage = [], resultNotes = []\<rparr>
      in case setBillingClassification d (targetBillingStatus row) s2 of
                   (Inl msg, s3) \<Rightarrow> patientFailed d n msg result s3
                 | (Inr billingStatusSet, s3) \<Rightarrow>
                     (let result1 = result\<lparr>billingStatus := targetBillingStatus row\<rparr>
                      in case saveAndConfirm d s3 of
                           (Inl msg, s4) \<Rightarrow> patientFailed d n msg result1 s4
                         | (Inr u, s4) \<Rightarrow> (succeeded billingStatusSet n result1, s4)))"
    unfolding processPatientClaim_def Let_def o s2 by simp
  show ?thesis
    unfolding eq Let_def
    by (auto intro!: case_snd [of "grows (\<lambda>a. True) s2"] grows_setBillingClassification
          grows_saveAndConfirm grows_patientFailed grows_refl
        split: sum.split)
qed

lemma not_allowed_notin:
  assumes "list_all (allowed A) es" and "\<not> A a"
  shows "Call a outcome \<notin> set es"
proof
  assume "Call a outcome \<in> set es"
  with assms(1) have "allowed A (Call a outcome)" unfolding list_all_iff by blast
  with assms(2) show False by simp
qed

lemma grows_allowed: "grows A s s' \<Longrightarrow> list_all (allowed A) (newEvents s s')"
  by (simp add: grows_def extends_def)




end
